theory Spec2Isabelle
  imports Main "HOL-Library.Word" "HOL-Library.Char_ord" "HOL-Library.List_Lexorder"
    "HOL-Library.Multiset"
begin

unbundle bit_operations_syntax

section \<open>The string functions the feed generator calls\<close>

text \<open>
  \<^verbatim>\<open>generate_rss.go\<close> calls four functions of Go's \<^verbatim>\<open>strings\<close> package and
  \<^verbatim>\<open>fmt.Sprintf("%d", _)\<close>. A Go string is a byte sequence, here a \<open>string\<close>.
  \<^verbatim>\<open>strings.Index\<close> returns \<open>-1\<close> when the substring does not occur; that is \<open>None\<close>.
\<close>

fun HasPrefix :: "string \<Rightarrow> string \<Rightarrow> bool" where
  "HasPrefix s [] = True"
| "HasPrefix [] (p # ps) = False"
| "HasPrefix (c # cs) (p # ps) = (c = p \<and> HasPrefix cs ps)"

fun Index :: "string \<Rightarrow> string \<Rightarrow> nat option" where
  "Index [] substr = (if substr = [] then Some 0 else None)"
| "Index (c # cs) substr =
     (if HasPrefix (c # cs) substr then Some 0 else map_option Suc (Index cs substr))"

definition Contains :: "string \<Rightarrow> string \<Rightarrow> bool" where
  "Contains s substr = (Index s substr \<noteq> None)"

text \<open>
  \<^verbatim>\<open>strings.Split(s, sep)\<close> is \<^verbatim>\<open>genSplit(s, sep, 0, -1)\<close>: cut at every occurrence of
  \<open>sep\<close>, left to right. With an empty separator the library explodes \<open>s\<close> into its UTF-8
  sequences (one per byte on ASCII text); the generator only ever passes \<open>"_"\<close> and \<open>"."\<close>.
\<close>

function Split :: "string \<Rightarrow> string \<Rightarrow> string list" where
  "Split s sep =
     (if sep = [] then map (\<lambda>c. [c]) s
      else (case Index s sep of
              None \<Rightarrow> [s]
            | Some m \<Rightarrow> take m s # Split (drop (m + length sep) s) sep))"
  by pat_completeness auto
termination
proof (relation "measure (\<lambda>(s, sep). length s)")
  show "wf (measure (\<lambda>(s, sep). length s))" by simp
next
  fix s sep :: string and m :: nat
  assume "sep \<noteq> []" and "Index s sep = Some m"
  then have "s \<noteq> []" by (cases s) simp_all
  with \<open>sep \<noteq> []\<close> show "((drop (m + length sep) s, sep), (s, sep)) \<in> measure (\<lambda>(s, sep). length s)"
    by (cases s; simp)
qed

declare Split.simps [simp del]

text \<open>
  \<^verbatim>\<open>strings.Replace(s, old, new, n)\<close> replaces the first \<open>n\<close> non-overlapping occurrences
  of \<open>old\<close> (all of them when \<open>n < 0\<close>). With an empty \<open>old\<close> the library inserts \<open>new\<close> at
  rune boundaries; the generator only passes \<open>".mp3"\<close>, and the model returns \<open>s\<close> there.
\<close>

function Replace :: "string \<Rightarrow> string \<Rightarrow> string \<Rightarrow> int \<Rightarrow> string" where
  "Replace s old new n =
     (if old = new \<or> n = 0 \<or> old = [] then s
      else (case Index s old of
              None \<Rightarrow> s
            | Some j \<Rightarrow> take j s @ new @ Replace (drop (j + length old) s) old new (n - 1)))"
  by pat_completeness auto
termination
proof (relation "measure (\<lambda>(s, old, new, n). length s)")
  show "wf (measure (\<lambda>(s, old, new, n). length s))" by simp
next
  fix s old new :: string and n :: int and j :: nat
  assume "\<not> (old = new \<or> n = 0 \<or> old = [])" and "Index s old = Some j"
  then have "s \<noteq> []" "old \<noteq> []" by (cases s; simp)+
  then show "((drop (j + length old) s, old, new, n - 1), (s, old, new, n))
      \<in> measure (\<lambda>(s, old, new, n). length s)"
    by (cases s; simp)
qed

declare Replace.simps [simp del]

text \<open>\<^verbatim>\<open>fmt.Sprintf("%d", n)\<close> for an \<^verbatim>\<open>int64\<close>: the decimal numeral, with a sign when negative.\<close>

definition digit :: "nat \<Rightarrow> char" where
  "digit d = ''0123456789'' ! d"

function decimal :: "nat \<Rightarrow> string" where
  "decimal n = (if n < 10 then [digit n] else decimal (n div 10) @ [digit (n mod 10)])"
  by pat_completeness auto
termination
  by (relation "measure id") auto

declare decimal.simps [simp del]

definition Sprintf_d :: "int \<Rightarrow> string" where
  "Sprintf_d i = (if i < 0 then CHR ''-'' # decimal (nat (- i)) else decimal (nat i))"

text \<open>Indexing a Go slice: out of range is a run-time panic, here \<open>None\<close>.\<close>

definition at :: "'a list \<Rightarrow> nat \<Rightarrow> 'a option" where
  "at xs i = (if i < length xs then Some (xs ! i) else None)"

section \<open>Data\<close>

text \<open>
  \<^verbatim>\<open>type Config struct\<close> of \<^verbatim>\<open>generate_rss.go\<close>, and the two results of
  \<^verbatim>\<open>os.FileInfo\<close> the generator reads (\<^verbatim>\<open>Name()\<close>, \<^verbatim>\<open>Size()\<close>).
\<close>

record Config =
  Name :: string
  Host :: string
  Email :: string
  Description :: string
  Image :: string
  PodcastUrl :: string

record FileInfo =
  fName :: string
  fSize :: int

text \<open>
  A \<^verbatim>\<open>time.Time\<close>: a calendar day and the nanoseconds elapsed since its midnight (UTC).
\<close>

record Time =
  Year :: nat
  Month :: nat
  Day :: nat
  Nanos :: nat

text \<open>
  The structs of the \<^verbatim>\<open>feeds\<close> library, with the fields the generator sets (every
  other field keeps its zero value). Pointers to freshly built structs are values.
\<close>

record Link =
  Href :: string
  Length :: string
  Type :: string

record Enclosure =
  Url :: string
  eLength :: string
  eType :: string

record Author =
  aName :: string
  aEmail :: string

record Item =
  iTitle :: string
  iLink :: Link
  iEnclosure :: Enclosure
  iDescription :: string
  iAuthor :: Author
  iCreated :: Time

record Feed =
  Title :: string
  fLink :: string
  fDescription :: string
  fAuthor :: Author
  Created :: Time
  fImage :: string
  Items :: "Item list"

text \<open>\<^verbatim>\<open>func (f *Feed) Add(item *Item)\<close> appends.\<close>

definition Add :: "Feed \<Rightarrow> Item \<Rightarrow> Feed" where
  "Add feed item = feed\<lparr>Items := Items feed @ [item]\<rparr>"

text \<open>
  The functions of other packages whose results the generator branches on are parameters of
  the model: \<^verbatim>\<open>json.Unmarshal\<close> into a \<^verbatim>\<open>Config\<close>, \<^verbatim>\<open>time.Parse("2006-01-02", _)\<close>,
  \<^verbatim>\<open>feed.ToRss()\<close> and \<^verbatim>\<open>feed.ToJSON()\<close>. \<open>None\<close> is a non-nil \<^verbatim>\<open>err\<close>.
\<close>

record lib =
  Unmarshal :: "string \<Rightarrow> Config option"
  Parse :: "string \<Rightarrow> Time option"
  ToRss :: "Feed \<Rightarrow> string option"
  ToJSON :: "Feed \<Rightarrow> string option"

text \<open>
  The file system as the generator sees it: the content of each readable file, the entries
  of each readable directory in the order the platform lists them (\<^verbatim>\<open>f.Readdir(-1)\<close>), and the
  paths that cannot be written. \<^verbatim>\<open>ioutil.WriteFile\<close> returns an error that both callers
  discard; a write either replaces the whole content or, on a path that cannot be written,
  changes nothing.
\<close>

record world =
  contents :: "string \<rightharpoonup> string"
  listings :: "string \<rightharpoonup> FileInfo list"
  readonly :: "string set"

definition ReadFile :: "world \<Rightarrow> string \<Rightarrow> string option" where
  "ReadFile w path = contents w path"

text \<open>
  \<^verbatim>\<open>ioutil.ReadDir\<close> sorts what the platform lists by file name, with
  \<^verbatim>\<open>sort.Slice(list, func(i, j int) bool { return list[i].Name() < list[j].Name() })\<close>.
  Go's \<open><\<close> on strings compares byte by byte, a proper prefix first, which is the order of
  \<open>string\<close> here. The names within one directory are distinct, so the sorted list does not
  depend on the sorting algorithm.
\<close>

definition ReadDir :: "world \<Rightarrow> string \<Rightarrow> FileInfo list option" where
  "ReadDir w path = map_option (sort_key fName) (listings w path)"

definition WriteFile :: "world \<Rightarrow> string \<Rightarrow> string \<Rightarrow> world" where
  "WriteFile w path data =
     (if path \<in> readonly w then w else w\<lparr>contents := (contents w)(path \<mapsto> data)\<rparr>)"

text \<open>
  The ways a rebuild stops: \<^verbatim>\<open>panic(err)\<close> (also raised by the run time for an index out
  of range) and \<^verbatim>\<open>log.Fatal(err)\<close>. The \<open>err\<close> is named after the call that returned it.
\<close>

datatype err =
    ReadFile_err string
  | Unmarshal_err
  | ReadDir_err string
  | index_out_of_range nat nat
  | Parse_err string
  | ToRss_err
  | ToJSON_err
  | Watcher_err string

datatype abort = panic err | log_Fatal err

section \<open>GenerateRss\<close>

text \<open>Lines 87 to 94: the feed before any episode is added.\<close>

definition new_feed :: "Config \<Rightarrow> Time \<Rightarrow> Feed" where
  "new_feed config now =
     \<lparr>Title = Name config,
      fLink = PodcastUrl config,
      fDescription = Description config,
      fAuthor = \<lparr>aName = Host config, aEmail = Email config\<rparr>,
      Created = now,
      fImage = Image config,
      Items = []\<rparr>"

text \<open>Lines 97 to 121: the body of the loop over the directory listing, for one entry.\<close>

definition range_body :: "lib \<Rightarrow> world \<Rightarrow> Config \<Rightarrow> FileInfo \<Rightarrow> Feed \<Rightarrow> abort + Feed" where
  "range_body L w config file feed =
     (if Contains (fName file) ''.mp3'' then
        (let s = Split (fName file) ''_'' in
         case at s 1 of
           None \<Rightarrow> Inl (panic (index_out_of_range 1 (length s)))
         | Some s1 \<Rightarrow>
         (let t = Split s1 ''.'' in
          case at t 0 of
            None \<Rightarrow> Inl (panic (index_out_of_range 0 (length t)))
          | Some title \<Rightarrow>
          (let path = ''podcasts/'' @ Replace (fName file) ''.mp3'' ''_SHOWNOTES.md'' 2 in
           case ReadFile w path of
             None \<Rightarrow> Inl (log_Fatal (ReadFile_err path))
           | Some description \<Rightarrow>
           (case at s 0 of
              None \<Rightarrow> Inl (panic (index_out_of_range 0 (length s)))
            | Some s0 \<Rightarrow>
            (case Parse L s0 of
               None \<Rightarrow> Inl (log_Fatal (Parse_err s0))
             | Some date \<Rightarrow>
               (let size = Sprintf_d (fSize file);
                    link = PodcastUrl config @ ''/download/'' @ fName file
                in Inr (Add feed
                     \<lparr>iTitle = title,
                      iLink = \<lparr>Href = link, Length = size, Type = ''audio/mpeg''\<rparr>,
                      iEnclosure = \<lparr>Url = link, eLength = size, eType = ''audio/mpeg''\<rparr>,
                      iDescription = description,
                      iAuthor = \<lparr>aName = Host config, aEmail = Email config\<rparr>,
                      iCreated = date\<rparr>)))))))
      else Inr feed)"

text \<open>Line 96: \<^verbatim>\<open>for _, file := range files\<close>, left at the first entry that stops the rebuild.\<close>

fun range_files :: "lib \<Rightarrow> world \<Rightarrow> Config \<Rightarrow> FileInfo list \<Rightarrow> Feed \<Rightarrow> abort + Feed" where
  "range_files L w config [] feed = Inr feed"
| "range_files L w config (file # files) feed =
     (case range_body L w config file feed of
        Inl a \<Rightarrow> Inl a
      | Inr feed' \<Rightarrow> range_files L w config files feed')"

text \<open>
  The whole function, given the reading \<open>now\<close> of \<^verbatim>\<open>time.Now()\<close>. The result is how the
  call ended (\<open>None\<close>: it returned) and the file system it leaves.
\<close>

definition GenerateRss :: "lib \<Rightarrow> Time \<Rightarrow> world \<Rightarrow> abort option \<times> world" where
  "GenerateRss L now w =
     (case ReadFile w ''assets/config/config.json'' of
        None \<Rightarrow> (Some (panic (ReadFile_err ''assets/config/config.json'')), w)
      | Some d \<Rightarrow>
      (case Unmarshal L d of
         None \<Rightarrow> (Some (panic Unmarshal_err), w)
       | Some config \<Rightarrow>
       (case ReadDir w ''podcasts'' of
          None \<Rightarrow> (Some (log_Fatal (ReadDir_err ''podcasts'')), w)
        | Some files \<Rightarrow>
        (case range_files L w config files (new_feed config now) of
           Inl a \<Rightarrow> (Some a, w)
         | Inr feed \<Rightarrow>
         (case ToRss L feed of
            None \<Rightarrow> (Some (log_Fatal ToRss_err), w)
          | Some rss \<Rightarrow>
          (case ToJSON L feed of
             None \<Rightarrow> (Some (log_Fatal ToJSON_err), w)
           | Some json \<Rightarrow>
             (None, WriteFile (WriteFile w ''assets/web/feed.rss'' rss)
                      ''assets/web/feed.json'' json)))))))"

section \<open>The watch loop\<close>

text \<open>
  \<^verbatim>\<open>fsnotify.Op\<close> is a \<^verbatim>\<open>uint32\<close> bit mask, \<^verbatim>\<open>Create Op = 1 << iota\<close> followed by
  \<^verbatim>\<open>Write\<close>, \<^verbatim>\<open>Remove\<close>, \<^verbatim>\<open>Rename\<close> and \<^verbatim>\<open>Chmod\<close>.
\<close>

definition Create :: "32 word" where "Create = 1"
definition Write :: "32 word" where "Write = 2"
definition Remove :: "32 word" where "Remove = 4"
definition Rename :: "32 word" where "Rename = 8"
definition Chmod :: "32 word" where "Chmod = 16"

record Event =
  evName :: string
  Op :: "32 word"

datatype message = Events Event | Errors err

text \<open>
  One turn of the \<^verbatim>\<open>select\<close>: the message received, what the rest of the system did to
  the files since the previous turn, and the clock at that moment.
\<close>

record turn =
  msg :: message
  edit :: "world \<Rightarrow> world"
  clock :: Time

text \<open>
  What the process has written to standard error, and where it stands: blocked in the
  \<^verbatim>\<open>select\<close>, or gone. \<^verbatim>\<open>log.Fatal\<close> prints and calls \<^verbatim>\<open>os.Exit(1)\<close>; a panic that no
  \<^verbatim>\<open>recover\<close> catches (there is none) prints its message and ends the process with status 2.
\<close>

datatype line = Println string err | Fatal_line err | panic_line err

datatype process = Blocked world "line list" | Exited nat world "line list"

fun exit_status :: "abort \<Rightarrow> nat" where
  "exit_status (panic e) = 2"
| "exit_status (log_Fatal e) = 1"

fun stderr_line :: "abort \<Rightarrow> line" where
  "stderr_line (panic e) = panic_line e"
| "stderr_line (log_Fatal e) = Fatal_line e"

text \<open>
  Lines 43 to 53: the goroutine of \<^verbatim>\<open>watch\<close>, run over the turns delivered so far.
\<close>

fun watch_loop :: "lib \<Rightarrow> world \<Rightarrow> line list \<Rightarrow> turn list \<Rightarrow> process" where
  "watch_loop L w out [] = Blocked w out"
| "watch_loop L w out (t # ts) =
     (case msg t of
        Events event \<Rightarrow>
          (if Op event AND Write = Write then
             (case GenerateRss L (clock t) (edit t w) of
                (Some a, w') \<Rightarrow> Exited (exit_status a) w' (out @ [stderr_line a])
              | (None, w') \<Rightarrow> watch_loop L w' out ts)
           else watch_loop L (edit t w) out ts)
      | Errors e \<Rightarrow> watch_loop L (edit t w) (out @ [Println ''error:'' e]) ts)"

section \<open>Stand-ins for the libraries, and sample inputs\<close>

text \<open>
  The theorems below hold for every \<open>lib\<close>. To run the model on concrete inputs the four
  parameters need values; these stand-ins are used for that and nothing else.

  \<open>time_Parse\<close> follows \<^verbatim>\<open>time.Parse\<close> at the layout \<^verbatim>\<open>"2006-01-02"\<close>: four digits, a
  dash, two digits, a dash, two digits and nothing more, the month within 1 to 12 and the
  day within the month.
\<close>

definition digit_val :: "char \<Rightarrow> nat option" where
  "digit_val = map_of
     [(CHR ''0'', 0), (CHR ''1'', 1), (CHR ''2'', 2), (CHR ''3'', 3), (CHR ''4'', 4),
      (CHR ''5'', 5), (CHR ''6'', 6), (CHR ''7'', 7), (CHR ''8'', 8), (CHR ''9'', 9)]"

fun atoi :: "nat \<Rightarrow> string \<Rightarrow> nat option" where
  "atoi acc [] = Some acc"
| "atoi acc (c # cs) =
     (case digit_val c of None \<Rightarrow> None | Some d \<Rightarrow> atoi (10 * acc + d) cs)"

definition daysIn :: "nat \<Rightarrow> nat \<Rightarrow> nat" where
  "daysIn m y =
     (if m = 2 then (if y mod 4 = 0 \<and> (y mod 100 \<noteq> 0 \<or> y mod 400 = 0) then 29 else 28)
      else if m \<in> {4, 6, 9, 11} then 30 else 31)"

definition time_Parse :: "string \<Rightarrow> Time option" where
  "time_Parse value =
     (if length value = 10 \<and> value ! 4 = CHR ''-'' \<and> value ! 7 = CHR ''-'' then
        (case (atoi 0 (take 4 value), atoi 0 (take 2 (drop 5 value)), atoi 0 (drop 8 value)) of
           (Some y, Some m, Some d) \<Rightarrow>
             (if 1 \<le> m \<and> m \<le> 12 \<and> 1 \<le> d \<and> d \<le> daysIn m y
              then Some \<lparr>Year = y, Month = m, Day = d, Nanos = 0\<rparr> else None)
         | _ \<Rightarrow> None)
      else None)"

text \<open>
  \<open>json_Unmarshal\<close> is the decoder at the one configuration document the examples use;
  every other text counts as undecodable here.
\<close>

definition config_json :: string where
  "config_json =
     ''{\"Name\":\"Show\",\"Host\":\"Alice\",\"Email\":\"a@x.com\",\"PodcastUrl\":\"https://x.com\"}''"

definition show_config :: Config where
  "show_config =
     \<lparr>Name = ''Show'', Host = ''Alice'', Email = ''a@x.com'', Description = [], Image = [],
      PodcastUrl = ''https://x.com''\<rparr>"

definition json_Unmarshal :: "string \<Rightarrow> Config option" where
  "json_Unmarshal = map_of [(config_json, show_config)]"

text \<open>
  The two encoders keep which fields of the feed reach each document, the channel's
  publication date among them, and not the exact bytes of the library (no escaping, no
  indentation, a plain rendering of times).
\<close>

definition show_Time :: "Time \<Rightarrow> string" where
  "show_Time t =
     decimal (Year t) @ ''-'' @ decimal (Month t) @ ''-'' @ decimal (Day t) @ ''+'' @ decimal (Nanos t)"

definition element :: "string \<Rightarrow> string \<Rightarrow> string" where
  "element tag body = ''<'' @ tag @ ''>'' @ body @ ''</'' @ tag @ ''>''"

definition rss_item :: "Item \<Rightarrow> string" where
  "rss_item i =
     element ''item''
       (element ''title'' (iTitle i) @ element ''link'' (Href (iLink i))
        @ element ''description'' (iDescription i)
        @ element ''enclosure'' (Url (iEnclosure i) @ '' '' @ eLength (iEnclosure i) @ '' ''
            @ eType (iEnclosure i))
        @ element ''pubDate'' (show_Time (iCreated i)))"

definition rss_document :: "Feed \<Rightarrow> string" where
  "rss_document f =
     element ''rss'' (element ''channel''
       (element ''title'' (Title f) @ element ''link'' (fLink f)
        @ element ''description'' (fDescription f)
        @ element ''managingEditor'' (aEmail (fAuthor f) @ '' ('' @ aName (fAuthor f) @ '')'')
        @ element ''pubDate'' (show_Time (Created f))
        @ concat (map rss_item (Items f))))"

definition feed_ToRss :: "Feed \<Rightarrow> string option" where
  "feed_ToRss f = Some (rss_document f)"

definition member :: "string \<Rightarrow> string \<Rightarrow> string" where
  "member key v = ''\"'' @ key @ ''\":\"'' @ v @ ''\",''"

definition json_item :: "Item \<Rightarrow> string" where
  "json_item i =
     ''{'' @ member ''title'' (iTitle i) @ member ''url'' (Href (iLink i))
     @ member ''summary'' (iDescription i) @ member ''date_published'' (show_Time (iCreated i))
     @ ''},''"

definition json_document :: "Feed \<Rightarrow> string" where
  "json_document f =
     ''{'' @ member ''title'' (Title f) @ member ''home_page_url'' (fLink f)
     @ member ''description'' (fDescription f) @ member ''author'' (aName (fAuthor f))
     @ member ''date_published'' (show_Time (Created f))
     @ ''\"items\":['' @ concat (map json_item (Items f)) @ '']}''"

definition feed_ToJSON :: "Feed \<Rightarrow> string option" where
  "feed_ToJSON f = Some (json_document f)"

definition stand_in :: lib where
  "stand_in =
     \<lparr>Unmarshal = json_Unmarshal, Parse = time_Parse, ToRss = feed_ToRss, ToJSON = feed_ToJSON\<rparr>"

text \<open>
  Sample inputs: two clock readings one second apart, and a directory that holds one audio
  file of 1000 bytes and one shownotes file reading \<open>Welcome\<close>, beside the configuration.
\<close>

definition noon :: Time where
  "noon = \<lparr>Year = 2024, Month = 3, Day = 1, Nanos = 43200000000000\<rparr>"

definition second_later :: Time where
  "second_later = \<lparr>Year = 2024, Month = 3, Day = 1, Nanos = 43201000000000\<rparr>"

definition audio :: "string \<Rightarrow> FileInfo" where
  "audio name = \<lparr>fName = name, fSize = 1000\<rparr>"

definition world_with :: "string \<Rightarrow> string \<Rightarrow> world" where
  "world_with name shownotes =
     \<lparr>contents = [''assets/config/config.json'' \<mapsto> config_json,
                  ''podcasts/'' @ shownotes \<mapsto> ''Welcome''],
      listings = [''podcasts'' \<mapsto> [audio name, \<lparr>fName = shownotes, fSize = 7\<rparr>]],
      readonly = {}\<rparr>"

text \<open>The record of 15 January 2024 with a given title, for the audio file of such a directory.\<close>

definition episode :: "string \<Rightarrow> string \<Rightarrow> Item" where
  "episode title name =
     \<lparr>iTitle = title,
      iLink = \<lparr>Href = ''https://x.com/download/'' @ name, Length = ''1000'', Type = ''audio/mpeg''\<rparr>,
      iEnclosure = \<lparr>Url = ''https://x.com/download/'' @ name, eLength = ''1000'',
                    eType = ''audio/mpeg''\<rparr>,
      iDescription = ''Welcome'',
      iAuthor = \<lparr>aName = ''Alice'', aEmail = ''a@x.com''\<rparr>,
      iCreated = \<lparr>Year = 2024, Month = 1, Day = 15, Nanos = 0\<rparr>\<rparr>"

definition notes_file :: "string \<Rightarrow> FileInfo" where
  "notes_file name = \<lparr>fName = name, fSize = 7\<rparr>"

definition pilot_feed :: "Time \<Rightarrow> Feed" where
  "pilot_feed now = Add (new_feed show_config now) (episode ''Pilot'' ''2024-01-15_Pilot.mp3'')"

text \<open>
  A directory with two episodes, on a platform that lists it by file name and on one that
  lists the later file first, and the feed with the two records, the earlier name first.
\<close>

definition two_world :: world where
  "two_world =
     \<lparr>contents = [''assets/config/config.json'' \<mapsto> config_json,
                  ''podcasts/2024-01-15_Pilot_SHOWNOTES.md'' \<mapsto> ''Welcome'',
                  ''podcasts/2024-01-15_Sequel_SHOWNOTES.md'' \<mapsto> ''Welcome''],
      listings = [''podcasts'' \<mapsto>
                   [audio ''2024-01-15_Pilot.mp3'', notes_file ''2024-01-15_Pilot_SHOWNOTES.md'',
                    audio ''2024-01-15_Sequel.mp3'', notes_file ''2024-01-15_Sequel_SHOWNOTES.md'']],
      readonly = {}\<rparr>"

definition unsorted_world :: world where
  "unsorted_world =
     two_world\<lparr>listings := [''podcasts'' \<mapsto>
       [audio ''2024-01-15_Sequel.mp3'', notes_file ''2024-01-15_Sequel_SHOWNOTES.md'',
        audio ''2024-01-15_Pilot.mp3'', notes_file ''2024-01-15_Pilot_SHOWNOTES.md'']]\<rparr>"

definition two_feed :: "Time \<Rightarrow> Feed" where
  "two_feed now =
     (new_feed show_config now)
       \<lparr>Items := [episode ''Pilot'' ''2024-01-15_Pilot.mp3'',
                  episode ''Sequel'' ''2024-01-15_Sequel.mp3'']\<rparr>"

definition pilot_world :: world where
  "pilot_world = world_with ''2024-01-15_Pilot.mp3'' ''2024-01-15_Pilot_SHOWNOTES.md''"

definition my_show_world :: world where
  "my_show_world = world_with ''2024-01-15_My_Show.mp3'' ''2024-01-15_My_Show_SHOWNOTES.md''"

definition ep_1_world :: world where
  "ep_1_world = world_with ''2024-01-15_Ep.1.mp3'' ''2024-01-15_Ep.1_SHOWNOTES.md''"

definition bak_world :: world where
  "bak_world = world_with ''2024-01-15_Pilot.mp3.bak'' ''2024-01-15_Pilot_SHOWNOTES.md.bak''"

text \<open>The same directory without its shownotes, without its configuration, and with one that does not decode.\<close>

definition no_notes_world :: world where
  "no_notes_world =
     pilot_world\<lparr>contents := (contents pilot_world)(''podcasts/2024-01-15_Pilot_SHOWNOTES.md'' := None)\<rparr>"

definition no_config_world :: world where
  "no_config_world =
     pilot_world\<lparr>contents := (contents pilot_world)(''assets/config/config.json'' := None)\<rparr>"

definition bad_config_world :: world where
  "bad_config_world =
     pilot_world\<lparr>contents := (contents pilot_world)(''assets/config/config.json'' \<mapsto> ''{\"Name\":'')\<rparr>"

text \<open>
  A write event with nothing else happening, and a write event for the configuration file
  after it has been put back.
\<close>

definition write_turn :: "Time \<Rightarrow> turn" where
  "write_turn now =
     \<lparr>msg = Events \<lparr>evName = ''podcasts/2024-01-15_Pilot.mp3'', Op = Write\<rparr>, edit = id, clock = now\<rparr>"

definition put_config :: "world \<Rightarrow> world" where
  "put_config w = w\<lparr>contents := (contents w)(''assets/config/config.json'' \<mapsto> config_json)\<rparr>"

definition config_turn :: "Time \<Rightarrow> turn" where
  "config_turn now =
     \<lparr>msg = Events \<lparr>evName = ''assets/config/config.json'', Op = Write\<rparr>, edit = put_config,
      clock = now\<rparr>"

section \<open>Splitting at a single character\<close>

lemma HasPrefix_single: "HasPrefix s [c] = (s \<noteq> [] \<and> hd s = c)"
  by (cases s) auto

lemma Index_single:
  "Index s [c] = (if c \<in> set s then Some (length (takeWhile (\<lambda>x. x \<noteq> c) s)) else None)"
  by (induction s) (auto simp: HasPrefix_single)

lemma Split_single_notin: "c \<notin> set s \<Longrightarrow> Split s [c] = [s]"
  by (subst Split.simps) (simp add: Index_single)

lemma Split_single_in:
  "c \<in> set s \<Longrightarrow>
     Split s [c] = takeWhile (\<lambda>x. x \<noteq> c) s # Split (tl (dropWhile (\<lambda>x. x \<noteq> c) s)) [c]"
proof -
  assume "c \<in> set s"
  let ?m = "length (takeWhile (\<lambda>x. x \<noteq> c) s)"
  have "drop (?m + length [c]) s = tl (drop ?m s)"
    by (simp add: drop_Suc tl_drop)
  also have "\<dots> = tl (dropWhile (\<lambda>x. x \<noteq> c) s)"
    by (simp add: dropWhile_eq_drop [symmetric])
  finally have rest: "drop (?m + length [c]) s = tl (dropWhile (\<lambda>x. x \<noteq> c) s)" .
  have "Split s [c] = take ?m s # Split (drop (?m + length [c]) s) [c]"
    using \<open>c \<in> set s\<close> by (subst Split.simps) (simp add: Index_single)
  then show ?thesis
    by (simp only: rest takeWhile_eq_take [symmetric])
qed

lemma at_Cons_0: "at (x # xs) 0 = Some x"
  by (simp add: at_def)

lemma at_Cons_Suc: "at (x # xs) (Suc n) = at xs n"
  by (simp add: at_def)

lemma at_Split_0: "at (Split s [c]) 0 = Some (takeWhile (\<lambda>x. x \<noteq> c) s)"
proof (cases "c \<in> set s")
  case True
  then show ?thesis by (simp add: Split_single_in at_Cons_0)
next
  case False
  then have whole: "takeWhile (\<lambda>x. x \<noteq> c) s = s"
    by (intro takeWhile_eq_all_conv [THEN iffD2]) auto
  show ?thesis
    by (simp only: Split_single_notin [OF False] at_Cons_0 whole)
qed

lemma at_Split_1:
  "at (Split s [c]) (Suc 0) =
     (if c \<in> set s then Some (takeWhile (\<lambda>x. x \<noteq> c) (tl (dropWhile (\<lambda>x. x \<noteq> c) s))) else None)"
proof (cases "c \<in> set s")
  case True
  then show ?thesis by (simp add: Split_single_in at_Cons_Suc at_Split_0)
next
  case False
  then show ?thesis by (simp add: Split_single_notin at_def)
qed

lemma length_Split_notin: "c \<notin> set s \<Longrightarrow> length (Split s [c]) = 1"
  by (simp add: Split_single_notin)

text \<open>The loop body on an entry that passes the test of line 97, in closed form.\<close>

lemma range_body_mp3:
  assumes "Contains (fName file) ''.mp3''"
  shows "range_body L w config file feed =
    (if CHR ''_'' \<notin> set (fName file) then Inl (panic (index_out_of_range 1 1))
     else case ReadFile w (''podcasts/'' @ Replace (fName file) ''.mp3'' ''_SHOWNOTES.md'' 2) of
       None \<Rightarrow> Inl (log_Fatal (ReadFile_err
                 (''podcasts/'' @ Replace (fName file) ''.mp3'' ''_SHOWNOTES.md'' 2)))
     | Some description \<Rightarrow>
       (case Parse L (takeWhile (\<lambda>x. x \<noteq> CHR ''_'') (fName file)) of
          None \<Rightarrow> Inl (log_Fatal (Parse_err (takeWhile (\<lambda>x. x \<noteq> CHR ''_'') (fName file))))
        | Some date \<Rightarrow> Inr (Add feed
            \<lparr>iTitle = takeWhile (\<lambda>x. x \<noteq> CHR ''_'' \<and> x \<noteq> CHR ''.'')
                        (tl (dropWhile (\<lambda>x. x \<noteq> CHR ''_'') (fName file))),
             iLink = \<lparr>Href = PodcastUrl config @ ''/download/'' @ fName file,
                      Length = Sprintf_d (fSize file), Type = ''audio/mpeg''\<rparr>,
             iEnclosure = \<lparr>Url = PodcastUrl config @ ''/download/'' @ fName file,
                           eLength = Sprintf_d (fSize file), eType = ''audio/mpeg''\<rparr>,
             iDescription = description,
             iAuthor = \<lparr>aName = Host config, aEmail = Email config\<rparr>,
             iCreated = date\<rparr>)))"
  using assms
  by (simp add: range_body_def Let_def at_Split_0 at_Split_1 length_Split_notin
        takeWhile_takeWhile split: option.splits)

section \<open>One entry of the listing\<close>

lemma Add_neq: "Add feed item \<noteq> feed"
proof
  assume "Add feed item = feed"
  then have "Items (Add feed item) = Items feed" by simp
  then show False by (simp add: Add_def)
qed

lemma Add_inject: "Add feed item = Add feed item' \<Longrightarrow> item = item'"
proof -
  assume "Add feed item = Add feed item'"
  then have "Items (Add feed item) = Items (Add feed item')" by simp
  then show ?thesis by (simp add: Add_def)
qed

lemma range_body_skip:
  "\<not> Contains (fName file) ''.mp3'' \<Longrightarrow> range_body L w config file feed = Inr feed"
  by (simp add: range_body_def)

text \<open>When the body adds a record, every test of lines 97 to 108 passed, and the record is this one.\<close>

lemma range_body_Add:
  assumes "range_body L w config file feed = Inr (Add feed item)"
  shows "Contains (fName file) ''.mp3''"
    and "CHR ''_'' \<in> set (fName file)"
    and "\<exists>description date.
          ReadFile w (''podcasts/'' @ Replace (fName file) ''.mp3'' ''_SHOWNOTES.md'' 2)
            = Some description \<and>
          Parse L (takeWhile (\<lambda>x. x \<noteq> CHR ''_'') (fName file)) = Some date \<and>
          item =
            \<lparr>iTitle = takeWhile (\<lambda>x. x \<noteq> CHR ''_'' \<and> x \<noteq> CHR ''.'')
                        (tl (dropWhile (\<lambda>x. x \<noteq> CHR ''_'') (fName file))),
             iLink = \<lparr>Href = PodcastUrl config @ ''/download/'' @ fName file,
                      Length = Sprintf_d (fSize file), Type = ''audio/mpeg''\<rparr>,
             iEnclosure = \<lparr>Url = PodcastUrl config @ ''/download/'' @ fName file,
                           eLength = Sprintf_d (fSize file), eType = ''audio/mpeg''\<rparr>,
             iDescription = description,
             iAuthor = \<lparr>aName = Host config, aEmail = Email config\<rparr>,
             iCreated = date\<rparr>"
proof -
  show mp3: "Contains (fName file) ''.mp3''"
  proof (rule ccontr)
    assume "\<not> Contains (fName file) ''.mp3''"
    then have "range_body L w config file feed = Inr feed" by (rule range_body_skip)
    with assms show False using Add_neq [of feed item] by simp
  qed
  note closed = range_body_mp3 [OF mp3, of L w config feed]
  show us: "CHR ''_'' \<in> set (fName file)"
    using assms closed by (auto split: if_splits)
  from assms closed us
  obtain description where d: "ReadFile w (''podcasts/'' @ Replace (fName file) ''.mp3'' ''_SHOWNOTES.md'' 2)
            = Some description"
    by (cases "ReadFile w (''podcasts/'' @ Replace (fName file) ''.mp3'' ''_SHOWNOTES.md'' 2)") auto
  from assms closed us d
  obtain date where p: "Parse L (takeWhile (\<lambda>x. x \<noteq> CHR ''_'') (fName file)) = Some date"
    by (cases "Parse L (takeWhile (\<lambda>x. x \<noteq> CHR ''_'') (fName file))") auto
  from assms closed us d p
  have "Add feed item = Add feed
            \<lparr>iTitle = takeWhile (\<lambda>x. x \<noteq> CHR ''_'' \<and> x \<noteq> CHR ''.'')
                        (tl (dropWhile (\<lambda>x. x \<noteq> CHR ''_'') (fName file))),
             iLink = \<lparr>Href = PodcastUrl config @ ''/download/'' @ fName file,
                      Length = Sprintf_d (fSize file), Type = ''audio/mpeg''\<rparr>,
             iEnclosure = \<lparr>Url = PodcastUrl config @ ''/download/'' @ fName file,
                           eLength = Sprintf_d (fSize file), eType = ''audio/mpeg''\<rparr>,
             iDescription = description,
             iAuthor = \<lparr>aName = Host config, aEmail = Email config\<rparr>,
             iCreated = date\<rparr>"
    by simp
  then show "\<exists>description date.
          ReadFile w (''podcasts/'' @ Replace (fName file) ''.mp3'' ''_SHOWNOTES.md'' 2)
            = Some description \<and>
          Parse L (takeWhile (\<lambda>x. x \<noteq> CHR ''_'') (fName file)) = Some date \<and>
          item =
            \<lparr>iTitle = takeWhile (\<lambda>x. x \<noteq> CHR ''_'' \<and> x \<noteq> CHR ''.'')
                        (tl (dropWhile (\<lambda>x. x \<noteq> CHR ''_'') (fName file))),
             iLink = \<lparr>Href = PodcastUrl config @ ''/download/'' @ fName file,
                      Length = Sprintf_d (fSize file), Type = ''audio/mpeg''\<rparr>,
             iEnclosure = \<lparr>Url = PodcastUrl config @ ''/download/'' @ fName file,
                           eLength = Sprintf_d (fSize file), eType = ''audio/mpeg''\<rparr>,
             iDescription = description,
             iAuthor = \<lparr>aName = Host config, aEmail = Email config\<rparr>,
             iCreated = date\<rparr>"
    using d p Add_inject by blast
qed

text \<open>The decimal numeral of a number reads back as that number.\<close>

lemma atoi_append:
  "atoi acc (xs @ ys) = (case atoi acc xs of None \<Rightarrow> None | Some a \<Rightarrow> atoi a ys)"
  by (induction xs arbitrary: acc) (auto split: option.splits)

lemma digit_val_digit: "d < 10 \<Longrightarrow> digit_val (digit d) = Some d"
proof -
  assume "d < 10"
  then have "d \<in> {0, 1, 2, 3, 4, 5, 6, 7, 8, 9}" by auto
  then show ?thesis by (auto simp: digit_val_def digit_def)
qed

lemma atoi_decimal: "atoi acc (decimal n) = Some (acc * 10 ^ length (decimal n) + n)"
proof (induction n arbitrary: acc rule: decimal.induct)
  case (1 n)
  show ?case
  proof (cases "n < 10")
    case True
    then show ?thesis by (subst (1 2) decimal.simps) (simp add: digit_val_digit)
  next
    case False
    have "atoi acc (decimal n) = atoi acc (decimal (n div 10) @ [digit (n mod 10)])"
      using False by (subst decimal.simps) simp
    also have "\<dots> = Some (10 * (acc * 10 ^ length (decimal (n div 10)) + n div 10) + n mod 10)"
      using False by (simp add: atoi_append "1.IH" digit_val_digit)
    finally have run: "atoi acc (decimal n) =
        Some (10 * (acc * 10 ^ length (decimal (n div 10)) + n div 10) + n mod 10)" .
    have "length (decimal n) = Suc (length (decimal (n div 10)))"
      using False by (subst decimal.simps) simp
    with run show ?thesis by (simp add: algebra_simps)
  qed
qed

lemma atoi_Sprintf_d: "0 \<le> i \<Longrightarrow> atoi 0 (Sprintf_d i) = Some (nat i)"
  by (simp add: Sprintf_d_def atoi_decimal)

section \<open>Runs on the sample inputs\<close>

lemmas run_simps =
  range_body_def Let_def Contains_def Split.simps Replace.simps at_def ReadFile_def
  Sprintf_d_def decimal.simps digit_def Add_def new_feed_def
  stand_in_def time_Parse_def digit_val_def daysIn_def show_config_def
  world_with_def audio_def episode_def

lemma pilot_body:
  "range_body stand_in pilot_world show_config (audio ''2024-01-15_Pilot.mp3'') feed
     = Inr (Add feed (episode ''Pilot'' ''2024-01-15_Pilot.mp3''))"
  by (simp add: run_simps pilot_world_def)

lemma my_show_body:
  "range_body stand_in my_show_world show_config (audio ''2024-01-15_My_Show.mp3'') feed
     = Inr (Add feed (episode ''My'' ''2024-01-15_My_Show.mp3''))"
  by (simp add: run_simps my_show_world_def)

lemma ep_1_body:
  "range_body stand_in ep_1_world show_config (audio ''2024-01-15_Ep.1.mp3'') feed
     = Inr (Add feed (episode ''Ep'' ''2024-01-15_Ep.1.mp3''))"
  by (simp add: run_simps ep_1_world_def)

lemma bak_body:
  "range_body stand_in bak_world show_config (audio ''2024-01-15_Pilot.mp3.bak'') feed
     = Inr (Add feed (episode ''Pilot'' ''2024-01-15_Pilot.mp3.bak''))"
  by (simp add: run_simps bak_world_def)

section \<open>File names of the form date, underscore, title, extension\<close>

lemma Index_after:
  "c \<notin> set pre \<Longrightarrow> Index (pre @ c # r) (c # r) = Some (length pre)"
proof (induction pre)
  case Nil
  have "HasPrefix xs xs" for xs :: string by (induction xs) auto
  then show ?case by simp
next
  case (Cons a pre)
  then show ?case by auto
qed

lemma Replace_Nil: "Replace [] old new n = []"
  by (subst Replace.simps) (simp split: option.splits)

lemma Replace_extension:
  assumes "c \<notin> set pre" and "c # r \<noteq> new" and "n \<noteq> 0"
  shows "Replace (pre @ c # r) (c # r) new n = pre @ new"
  using assms by (subst Replace.simps) (simp add: Index_after Replace_Nil)

lemma Contains_extension: "c \<notin> set pre \<Longrightarrow> Contains (pre @ c # r) (c # r)"
  by (simp add: Contains_def Index_after)

lemma takeWhile_stop:
  "\<forall>x\<in>set xs. P x \<Longrightarrow> \<not> P y \<Longrightarrow> takeWhile P (xs @ y # ys) = xs"
  by (induction xs) auto

lemma dropWhile_stop:
  "\<forall>x\<in>set xs. P x \<Longrightarrow> \<not> P y \<Longrightarrow> dropWhile P (xs @ y # ys) = y # ys"
  by (induction xs) auto

text \<open>
  C3, as amended. For an entry whose name does not contain \<open>.mp3\<close>, or contains it but no
  underscore, or whose text before the first underscore does not parse as a date, no record
  is built: the loop body stops the rebuild or leaves the feed as it was. The test of line 97
  is containment, not the extension, so other names that fail the contract do get a record.
  Whenever records are added for two entries of the same name, in whatever directory, under
  whatever configuration and to whatever feed, they carry the same title and the same date.
\<close>

theorem record_only_for_tested_names:
  "(\<not> Contains (fName file) ''.mp3'' \<or> CHR ''_'' \<notin> set (fName file)
      \<or> Parse L (takeWhile (\<lambda>x. x \<noteq> CHR ''_'') (fName file)) = None
    \<longrightarrow> isl (range_body L w config file feed) \<or> range_body L w config file feed = Inr feed)
   \<and> (range_body L w config file feed = Inr (Add feed item)
      \<and> range_body L w' config' file' feed' = Inr (Add feed' item')
      \<and> fName file' = fName file
    \<longrightarrow> iTitle item' = iTitle item \<and> iCreated item' = iCreated item)"
proof (intro conjI impI)
  assume no: "\<not> Contains (fName file) ''.mp3'' \<or> CHR ''_'' \<notin> set (fName file)
      \<or> Parse L (takeWhile (\<lambda>x. x \<noteq> CHR ''_'') (fName file)) = None"
  show "isl (range_body L w config file feed) \<or> range_body L w config file feed = Inr feed"
  proof (cases "Contains (fName file) ''.mp3''")
    case False
    then show ?thesis by (simp add: range_body_skip)
  next
    case True
    with no have "CHR ''_'' \<notin> set (fName file)
      \<or> Parse L (takeWhile (\<lambda>x. x \<noteq> CHR ''_'') (fName file)) = None"
      by simp
    then have "isl (range_body L w config file feed)"
      unfolding range_body_mp3 [OF True]
      by (cases "ReadFile w (''podcasts/'' @ Replace (fName file) ''.mp3'' ''_SHOWNOTES.md'' 2)")
         auto
    then show ?thesis ..
  qed
next
  assume both: "range_body L w config file feed = Inr (Add feed item)
      \<and> range_body L w' config' file' feed' = Inr (Add feed' item')
      \<and> fName file' = fName file"
  then have same: "fName file' = fName file"
    and a: "range_body L w config file feed = Inr (Add feed item)"
    and b: "range_body L w' config' file' feed' = Inr (Add feed' item')"
    by simp_all
  from range_body_Add(3) [OF a]
  obtain date where 1: "Parse L (takeWhile (\<lambda>x. x \<noteq> CHR ''_'') (fName file)) = Some date"
    "iCreated item = date"
    "iTitle item = takeWhile (\<lambda>x. x \<noteq> CHR ''_'' \<and> x \<noteq> CHR ''.'')
                        (tl (dropWhile (\<lambda>x. x \<noteq> CHR ''_'') (fName file)))"
    by auto
  from range_body_Add(3) [OF b]
  obtain date' where 2: "Parse L (takeWhile (\<lambda>x. x \<noteq> CHR ''_'') (fName file')) = Some date'"
    "iCreated item' = date'"
    "iTitle item' = takeWhile (\<lambda>x. x \<noteq> CHR ''_'' \<and> x \<noteq> CHR ''.'')
                        (tl (dropWhile (\<lambda>x. x \<noteq> CHR ''_'') (fName file')))"
    by auto
  from 1 2 same show "iTitle item' = iTitle item" by simp
  from 1 2 same show "iCreated item' = iCreated item" by simp
qed

theorem record_only_for_tested_names_witness:
  "CHR ''_'' \<notin> set (fName (audio ''intro.mp3''))
   \<and> isl (range_body stand_in pilot_world show_config (audio ''intro.mp3'')
          (new_feed show_config noon))
   \<and> range_body stand_in pilot_world show_config (audio ''2024-01-15_Pilot.mp3'')
        (new_feed show_config noon)
       = Inr (Add (new_feed show_config noon) (episode ''Pilot'' ''2024-01-15_Pilot.mp3''))
   \<and> range_body stand_in two_world show_config (audio ''2024-01-15_Pilot.mp3'')
        (new_feed show_config second_later)
       = Inr (Add (new_feed show_config second_later) (episode ''Pilot'' ''2024-01-15_Pilot.mp3''))
   \<and> iTitle (episode ''Pilot'' ''2024-01-15_Pilot.mp3'') = ''Pilot''"
  (is "?no \<and> ?none \<and> ?one \<and> ?two \<and> ?title")
proof -
  have no: ?no
    by (simp add: audio_def)
  have "range_body stand_in pilot_world show_config (audio ''intro.mp3'')
      (new_feed show_config noon) \<noteq> Inr (new_feed show_config noon)"
    by (simp add: run_simps)
  with no have none: ?none
    using record_only_for_tested_names
      [of "audio ''intro.mp3''" stand_in pilot_world show_config "new_feed show_config noon"]
    by blast
  have one: ?one
    by (rule pilot_body)
  have two: ?two
    by (simp add: run_simps two_world_def)
  have "iTitle (episode ''Pilot'' ''2024-01-15_Pilot.mp3'')
      = iTitle (episode ''Pilot'' ''2024-01-15_Pilot.mp3'')"
    using one two record_only_for_tested_names
      [of "audio ''2024-01-15_Pilot.mp3''" stand_in pilot_world show_config
          "new_feed show_config noon" "episode ''Pilot'' ''2024-01-15_Pilot.mp3''"
          two_world show_config "audio ''2024-01-15_Pilot.mp3''"
          "new_feed show_config second_later" "episode ''Pilot'' ''2024-01-15_Pilot.mp3''"]
    by blast
  then have title: ?title
    by (simp add: episode_def)
  from no none one two title show ?thesis by blast
qed

text \<open>
  C3 as stated fails: \<open>2024-01-15_Pilot.mp3.bak\<close> does not have the extension \<open>.mp3\<close>, and a
  record is added for it.
\<close>

theorem record_for_name_without_mp3_extension:
  "\<not> HasPrefix (rev (fName (audio ''2024-01-15_Pilot.mp3.bak''))) (rev ''.mp3'')
   \<and> range_body stand_in bak_world show_config (audio ''2024-01-15_Pilot.mp3.bak'')
        (new_feed show_config noon)
       = Inr (Add (new_feed show_config noon) (episode ''Pilot'' ''2024-01-15_Pilot.mp3.bak''))"
  using bak_body by (simp add: audio_def)

text \<open>
  C4, as amended. The name is split at every underscore (line 98). The date prefix is the text
  before the first underscore; the title is the text after the first underscore up to the
  next underscore or the first \<open>.\<close>, whichever comes first. For \<open>2024-01-15_My_Show.mp3\<close>
  the title is \<open>My\<close>.
\<close>

theorem title_and_date_of_name:
  "range_body L w config file feed = Inr (Add feed item) \<Longrightarrow>
     iTitle item = takeWhile (\<lambda>x. x \<noteq> CHR ''_'' \<and> x \<noteq> CHR ''.'')
                     (tl (dropWhile (\<lambda>x. x \<noteq> CHR ''_'') (fName file)))
     \<and> Parse L (takeWhile (\<lambda>x. x \<noteq> CHR ''_'') (fName file)) = Some (iCreated item)"
proof -
  assume "range_body L w config file feed = Inr (Add feed item)"
  from range_body_Add(3) [OF this] show ?thesis by auto
qed

theorem title_and_date_of_name_witness:
  "range_body stand_in my_show_world show_config (audio ''2024-01-15_My_Show.mp3'')
       (new_feed show_config noon)
     = Inr (Add (new_feed show_config noon) (episode ''My'' ''2024-01-15_My_Show.mp3''))
   \<and> iTitle (episode ''My'' ''2024-01-15_My_Show.mp3'') = ''My''
   \<and> Parse stand_in ''2024-01-15'' = Some (iCreated (episode ''My'' ''2024-01-15_My_Show.mp3''))"
  using title_and_date_of_name [OF my_show_body [of "new_feed show_config noon"]]
    my_show_body [of "new_feed show_config noon"]
  by (simp add: audio_def)

text \<open>
  C4 as stated fails: the title derived from \<open>2024-01-15_My_Show.mp3\<close> is \<open>My\<close>, not the
  whole of \<open>My_Show\<close>.
\<close>

theorem title_stops_at_second_underscore:
  "range_body stand_in my_show_world show_config (audio ''2024-01-15_My_Show.mp3'')
       (new_feed show_config noon)
     = Inr (Add (new_feed show_config noon) (episode ''My'' ''2024-01-15_My_Show.mp3''))
   \<and> iTitle (episode ''My'' ''2024-01-15_My_Show.mp3'') \<noteq> ''My_Show''"
  using my_show_body by (simp add: episode_def)

text \<open>
  C6, as amended. Let the name be a date \<open>d\<close> (no underscore and no dot in it, and it parses),
  an underscore, a title that holds neither an underscore nor a dot, and \<open>.mp3\<close>, and let the
  shownotes file of that name be readable. Then the loop body appends exactly one record, with
  that date and that title. For an entry whose name does not contain \<open>.mp3\<close> it appends none.
\<close>

theorem one_record_for_plain_title:
  "(fName file = d @ ''_'' @ title @ ''.mp3''
      \<and> CHR ''_'' \<notin> set d \<and> CHR ''.'' \<notin> set d \<and> Parse L d = Some date
      \<and> CHR ''_'' \<notin> set title \<and> CHR ''.'' \<notin> set title
      \<and> ReadFile w (''podcasts/'' @ d @ ''_'' @ title @ ''_SHOWNOTES.md'') = Some description
    \<longrightarrow> range_body L w config file feed =
          Inr (feed\<lparr>Items := Items feed @
            [\<lparr>iTitle = title,
               iLink = \<lparr>Href = PodcastUrl config @ ''/download/'' @ fName file,
                        Length = Sprintf_d (fSize file), Type = ''audio/mpeg''\<rparr>,
               iEnclosure = \<lparr>Url = PodcastUrl config @ ''/download/'' @ fName file,
                             eLength = Sprintf_d (fSize file), eType = ''audio/mpeg''\<rparr>,
               iDescription = description,
               iAuthor = \<lparr>aName = Host config, aEmail = Email config\<rparr>,
               iCreated = date\<rparr>]\<rparr>))
   \<and> (\<not> Contains (fName file) ''.mp3'' \<longrightarrow> range_body L w config file feed = Inr feed)"
proof (intro conjI impI)
  assume hyp: "fName file = d @ ''_'' @ title @ ''.mp3''
      \<and> CHR ''_'' \<notin> set d \<and> CHR ''.'' \<notin> set d \<and> Parse L d = Some date
      \<and> CHR ''_'' \<notin> set title \<and> CHR ''.'' \<notin> set title
      \<and> ReadFile w (''podcasts/'' @ d @ ''_'' @ title @ ''_SHOWNOTES.md'') = Some description"
  then have name: "fName file = (d @ ''_'' @ title) @ CHR ''.'' # ''mp3''"
    and nodot: "CHR ''.'' \<notin> set (d @ ''_'' @ title)"
    by simp_all
  from hyp have parse: "Parse L d = Some date"
    and rd: "ReadFile w (''podcasts/'' @ (d @ ''_'' @ title) @ ''_SHOWNOTES.md'') = Some description"
    by simp_all
  have mp3: "Contains (fName file) ''.mp3''"
    unfolding name using nodot by (rule Contains_extension)
  have companion: "Replace (fName file) ''.mp3'' ''_SHOWNOTES.md'' 2 = (d @ ''_'' @ title) @ ''_SHOWNOTES.md''"
    unfolding name using nodot by (rule Replace_extension) simp_all
  have us: "CHR ''_'' \<in> set (fName file)"
    using hyp by simp
  have d: "\<forall>x\<in>set d. x \<noteq> CHR ''_''" and t: "\<forall>x\<in>set title. x \<noteq> CHR ''_'' \<and> x \<noteq> CHR ''.''"
    using hyp by auto
  have date_part: "takeWhile (\<lambda>x. x \<noteq> CHR ''_'') (fName file) = d"
    using hyp takeWhile_stop [OF d, of "CHR ''_''"] by simp
  have rest: "tl (dropWhile (\<lambda>x. x \<noteq> CHR ''_'') (fName file)) = title @ ''.mp3''"
    using hyp dropWhile_stop [OF d, of "CHR ''_''"] by simp
  have title: "takeWhile (\<lambda>x. x \<noteq> CHR ''_'' \<and> x \<noteq> CHR ''.'') (title @ ''.mp3'') = title"
    using takeWhile_stop [OF t, of "CHR ''.''" "''mp3''"] by simp
  let ?item = "\<lparr>iTitle = title,
             iLink = \<lparr>Href = PodcastUrl config @ ''/download/'' @ fName file,
                      Length = Sprintf_d (fSize file), Type = ''audio/mpeg''\<rparr>,
             iEnclosure = \<lparr>Url = PodcastUrl config @ ''/download/'' @ fName file,
                           eLength = Sprintf_d (fSize file), eType = ''audio/mpeg''\<rparr>,
             iDescription = description,
             iAuthor = \<lparr>aName = Host config, aEmail = Email config\<rparr>,
             iCreated = date\<rparr>"
  have "range_body L w config file feed = Inr (Add feed ?item)"
    unfolding range_body_mp3 [OF mp3] companion date_part rest title
    using us parse rd by simp
  then show "range_body L w config file feed = Inr (feed\<lparr>Items := Items feed @ [?item]\<rparr>)"
    by (simp add: Add_def)
next
  assume "\<not> Contains (fName file) ''.mp3''"
  then show "range_body L w config file feed = Inr feed" by (rule range_body_skip)
qed

theorem one_record_for_plain_title_witness:
  "fName (audio ''2024-01-15_Pilot.mp3'') = ''2024-01-15'' @ ''_'' @ ''Pilot'' @ ''.mp3''
   \<and> CHR ''_'' \<notin> set ''2024-01-15'' \<and> CHR ''.'' \<notin> set ''2024-01-15''
   \<and> Parse stand_in ''2024-01-15'' = Some \<lparr>Year = 2024, Month = 1, Day = 15, Nanos = 0\<rparr>
   \<and> CHR ''_'' \<notin> set ''Pilot'' \<and> CHR ''.'' \<notin> set ''Pilot''
   \<and> ReadFile pilot_world (''podcasts/'' @ ''2024-01-15'' @ ''_'' @ ''Pilot'' @ ''_SHOWNOTES.md'')
       = Some ''Welcome''
   \<and> range_body stand_in pilot_world show_config (audio ''2024-01-15_Pilot.mp3'')
         (new_feed show_config noon)
       = Inr ((new_feed show_config noon)\<lparr>Items := [episode ''Pilot'' ''2024-01-15_Pilot.mp3'']\<rparr>)
   \<and> \<not> Contains (fName \<lparr>fName = ''2024-01-15_Pilot_SHOWNOTES.md'', fSize = 7\<rparr>) ''.mp3''
   \<and> range_body stand_in pilot_world show_config
         \<lparr>fName = ''2024-01-15_Pilot_SHOWNOTES.md'', fSize = 7\<rparr> (new_feed show_config noon)
       = Inr (new_feed show_config noon)"
  (is "?name \<and> ?d1 \<and> ?d2 \<and> ?parse \<and> ?t1 \<and> ?t2 \<and> ?read \<and> ?one \<and> ?other \<and> ?none")
proof -
  have hyps: "?name \<and> ?d1 \<and> ?d2 \<and> ?parse \<and> ?t1 \<and> ?t2 \<and> ?read"
    by (simp add: audio_def stand_in_def time_Parse_def digit_val_def daysIn_def ReadFile_def
          pilot_world_def world_with_def)
  have other: ?other
    by (simp add: Contains_def)
  note inst = one_record_for_plain_title
    [of _ "''2024-01-15''" "''Pilot''" stand_in
        "\<lparr>Year = 2024, Month = 1, Day = 15, Nanos = 0\<rparr>" pilot_world "''Welcome''" show_config
        "new_feed show_config noon"]
  have one: ?one
    using hyps inst [of "audio ''2024-01-15_Pilot.mp3''"]
    by (simp add: episode_def new_feed_def show_config_def audio_def Sprintf_d_def decimal.simps
          digit_def)
  have none: ?none
    using other inst [of "\<lparr>fName = ''2024-01-15_Pilot_SHOWNOTES.md'', fSize = 7\<rparr>"]
    by blast
  from hyps one other none show ?thesis by blast
qed

text \<open>
  C6 as stated fails: \<open>2024-01-15_Ep.1.mp3\<close> is the valid date \<open>2024-01-15\<close>, an underscore, the
  title \<open>Ep.1\<close> and \<open>.mp3\<close>, its shownotes file is readable, and the record built for it is
  titled \<open>Ep\<close>.
\<close>

theorem title_stops_at_first_dot:
  "fName (audio ''2024-01-15_Ep.1.mp3'') = ''2024-01-15'' @ ''_'' @ ''Ep.1'' @ ''.mp3''
   \<and> Parse stand_in ''2024-01-15'' = Some \<lparr>Year = 2024, Month = 1, Day = 15, Nanos = 0\<rparr>
   \<and> ReadFile ep_1_world (''podcasts/'' @ ''2024-01-15'' @ ''_'' @ ''Ep.1'' @ ''_SHOWNOTES.md'')
       = Some ''Welcome''
   \<and> range_body stand_in ep_1_world show_config (audio ''2024-01-15_Ep.1.mp3'')
         (new_feed show_config noon)
       = Inr (Add (new_feed show_config noon) (episode ''Ep'' ''2024-01-15_Ep.1.mp3''))
   \<and> iTitle (episode ''Ep'' ''2024-01-15_Ep.1.mp3'') \<noteq> ''Ep.1''"
  using ep_1_body
  by (simp add: audio_def stand_in_def time_Parse_def digit_val_def daysIn_def ReadFile_def
        ep_1_world_def world_with_def episode_def)

text \<open>
  C9. Every record the loop body adds has the download link \<open>P/download/F\<close>, where \<open>P\<close> is
  the configuration's \<^verbatim>\<open>PodcastUrl\<close> and \<open>F\<close> the file's name, the MIME type \<open>audio/mpeg\<close>, and
  as length the decimal numeral of the file's size \<open>N\<close>, in the link and in the enclosure
  alike; read back as a number, the length is \<open>N\<close>.
\<close>

theorem link_length_and_type:
  "range_body L w config file feed = Inr (Add feed item) \<Longrightarrow>
     iLink item = \<lparr>Href = PodcastUrl config @ ''/download/'' @ fName file,
                   Length = Sprintf_d (fSize file), Type = ''audio/mpeg''\<rparr>
     \<and> iEnclosure item = \<lparr>Url = PodcastUrl config @ ''/download/'' @ fName file,
                          eLength = Sprintf_d (fSize file), eType = ''audio/mpeg''\<rparr>
     \<and> (0 \<le> fSize file \<longrightarrow> atoi 0 (Length (iLink item)) = Some (nat (fSize file)))"
proof -
  assume "range_body L w config file feed = Inr (Add feed item)"
  from range_body_Add(3) [OF this] show ?thesis by (auto simp: atoi_Sprintf_d)
qed

theorem link_length_and_type_witness:
  "range_body stand_in pilot_world show_config (audio ''2024-01-15_Pilot.mp3'')
       (new_feed show_config noon)
     = Inr (Add (new_feed show_config noon) (episode ''Pilot'' ''2024-01-15_Pilot.mp3''))
   \<and> 0 \<le> fSize (audio ''2024-01-15_Pilot.mp3'')
   \<and> iLink (episode ''Pilot'' ''2024-01-15_Pilot.mp3'')
       = \<lparr>Href = ''https://x.com/download/2024-01-15_Pilot.mp3'', Length = Sprintf_d 1000,
          Type = ''audio/mpeg''\<rparr>
   \<and> atoi 0 (Length (iLink (episode ''Pilot'' ''2024-01-15_Pilot.mp3''))) = Some 1000"
  using link_length_and_type [OF pilot_body [of "new_feed show_config noon"]]
    pilot_body [of "new_feed show_config noon"]
  by (simp add: audio_def show_config_def atoi_Sprintf_d)

section \<open>The loop over the listing\<close>

text \<open>What the body does with an entry does not depend on the feed it is given.\<close>

lemma range_body_any_feed:
  "range_body L w config file feed = Inr (Add feed item) \<Longrightarrow>
     range_body L w config file feed0 = Inr (Add feed0 item)"
proof -
  assume run: "range_body L w config file feed = Inr (Add feed item)"
  note mp3 = range_body_Add(1) [OF run] and us = range_body_Add(2) [OF run]
  from range_body_Add(3) [OF run] us show ?thesis
    by (auto simp: range_body_mp3 [OF mp3])
qed

lemma range_body_Inr:
  "range_body L w config file feed = Inr feed' \<Longrightarrow>
     (if Contains (fName file) ''.mp3'' then \<exists>item. feed' = Add feed item else feed' = feed)"
  by (auto simp: range_body_mp3 range_body_skip split: if_splits option.splits)

lemma range_body_stops_any_feed:
  "range_body L w config file feed = Inl a \<Longrightarrow> range_body L w config file feed0 = Inl a"
proof (cases "Contains (fName file) ''.mp3''")
  case True
  assume "range_body L w config file feed = Inl a"
  then show ?thesis
    unfolding range_body_mp3 [OF True]
    by (cases "CHR ''_'' \<in> set (fName file)";
        cases "ReadFile w (''podcasts/'' @ Replace (fName file) ''.mp3'' ''_SHOWNOTES.md'' 2)";
        cases "Parse L (takeWhile (\<lambda>x. x \<noteq> CHR ''_'') (fName file))"; simp)
next
  case False
  assume "range_body L w config file feed = Inl a"
  with False show ?thesis by (simp add: range_body_skip)
qed

lemma range_files_stops:
  "file \<in> set files \<Longrightarrow> range_body L w config file feed0 = Inl a \<Longrightarrow>
     \<exists>b. range_files L w config files feed = Inl b"
proof (induction files arbitrary: feed)
  case Nil
  then show ?case by simp
next
  case (Cons f fs)
  show ?case
  proof (cases "range_body L w config f feed")
    case (Inl b)
    then show ?thesis by simp
  next
    case (Inr feed')
    then have "f \<noteq> file"
      using range_body_stops_any_feed [OF Cons.prems(2), of feed] by auto
    with Cons.prems have "file \<in> set fs" by simp
    from Cons.IH [OF this Cons.prems(2)] Inr show ?thesis by simp
  qed
qed

lemma range_files_Items:
  "range_files L w config files feed = Inr feed' \<Longrightarrow>
     \<exists>new. feed' = feed\<lparr>Items := Items feed @ new\<rparr>
       \<and> list_all2 (\<lambda>item file. range_body L w config file feed0 = Inr (Add feed0 item))
            new (filter (\<lambda>file. Contains (fName file) ''.mp3'') files)"
proof (induction files arbitrary: feed)
  case Nil
  then show ?case by simp
next
  case (Cons f fs)
  show ?case
  proof (cases "range_body L w config f feed")
    case (Inl a)
    with Cons.prems show ?thesis by simp
  next
    case (Inr mid)
    with Cons.prems have rest: "range_files L w config fs mid = Inr feed'" by simp
    from Cons.IH [OF rest] obtain new where feed': "feed' = mid\<lparr>Items := Items mid @ new\<rparr>"
      and new: "list_all2 (\<lambda>item file. range_body L w config file feed0 = Inr (Add feed0 item))
            new (filter (\<lambda>file. Contains (fName file) ''.mp3'') fs)"
      by (elim exE conjE)
    show ?thesis
    proof (cases "Contains (fName f) ''.mp3''")
      case True
      with range_body_Inr [OF Inr] obtain item where item: "mid = Add feed item" by auto
      from Inr have "range_body L w config f feed = Inr (Add feed item)"
        unfolding item .
      then have "range_body L w config f feed0 = Inr (Add feed0 item)"
        by (rule range_body_any_feed)
      with new have "list_all2 (\<lambda>item file. range_body L w config file feed0 = Inr (Add feed0 item))
            (item # new) (filter (\<lambda>file. Contains (fName file) ''.mp3'') (f # fs))"
        using True by simp
      moreover have "feed' = feed\<lparr>Items := Items feed @ item # new\<rparr>"
        unfolding feed' item by (simp add: Add_def)
      ultimately show ?thesis by (intro exI [of _ "item # new"] conjI)
    next
      case False
      with range_body_Inr [OF Inr] have "mid = feed" by simp
      with feed' have "feed' = feed\<lparr>Items := Items feed @ new\<rparr>" by simp
      moreover from new False
      have "list_all2 (\<lambda>item file. range_body L w config file feed0 = Inr (Add feed0 item))
            new (filter (\<lambda>file. Contains (fName file) ''.mp3'') (f # fs))"
        by simp
      ultimately show ?thesis by (intro exI [of _ new] conjI)
    qed
  qed
qed

lemma range_files_fields:
  "range_files L w config files feed = Inr feed' \<Longrightarrow> feed' = feed\<lparr>Items := Items feed'\<rparr>"
proof -
  assume "range_files L w config files feed = Inr feed'"
  from range_files_Items [OF this, of feed]
  obtain new where "feed' = feed\<lparr>Items := Items feed @ new\<rparr>" by (elim exE conjE)
  then show ?thesis by simp
qed

lemma list_all2_map_eq:
  "list_all2 R xs ys \<Longrightarrow> (\<And>x y. R x y \<Longrightarrow> f x = g y) \<Longrightarrow> map f xs = map g ys"
  by (induction rule: list_all2_induct) auto

section \<open>A whole rebuild\<close>

lemma GenerateRss_abort_keeps_world: "GenerateRss L now w = (Some a, w') \<Longrightarrow> w' = w"
  by (simp add: GenerateRss_def split: option.splits sum.splits)

text \<open>
  C7. If the listing holds an entry that passes the test of line 97 and whose shownotes file
  cannot be read, the rebuild stops with an error and the file system is what it was: neither
  output is written, and what \<open>feed.rss\<close> and \<open>feed.json\<close> held stays. (This holds whether or
  not the entry is valid otherwise, and whatever else is in the directory.)
\<close>

theorem missing_shownotes_aborts:
  "ReadDir w ''podcasts'' = Some files \<Longrightarrow> file \<in> set files \<Longrightarrow>
   Contains (fName file) ''.mp3'' \<Longrightarrow>
   ReadFile w (''podcasts/'' @ Replace (fName file) ''.mp3'' ''_SHOWNOTES.md'' 2) = None \<Longrightarrow>
     fst (GenerateRss L now w) \<noteq> None \<and> snd (GenerateRss L now w) = w"
proof -
  assume listing: "ReadDir w ''podcasts'' = Some files" and entry: "file \<in> set files"
    and mp3: "Contains (fName file) ''.mp3''"
    and unreadable:
      "ReadFile w (''podcasts/'' @ Replace (fName file) ''.mp3'' ''_SHOWNOTES.md'' 2) = None"
  show ?thesis
  proof (cases "ReadFile w ''assets/config/config.json''")
    case None
    then show ?thesis by (simp add: GenerateRss_def)
  next
    case (Some d)
    show ?thesis
    proof (cases "Unmarshal L d")
      case None
      with Some show ?thesis by (simp add: GenerateRss_def)
    next
      case (Some config)
      have "\<exists>a. range_body L w config file (new_feed config now) = Inl a"
        using unreadable by (simp add: range_body_mp3 [OF mp3])
      then obtain a where "range_body L w config file (new_feed config now) = Inl a" ..
      from range_files_stops [OF entry this]
      obtain b where "range_files L w config files (new_feed config now) = Inl b" ..
      with \<open>ReadFile w ''assets/config/config.json'' = Some d\<close> Some listing
      show ?thesis by (simp add: GenerateRss_def)
    qed
  qed
qed

theorem missing_shownotes_aborts_witness:
  "ReadDir no_notes_world ''podcasts''
     = Some [audio ''2024-01-15_Pilot.mp3'', \<lparr>fName = ''2024-01-15_Pilot_SHOWNOTES.md'', fSize = 7\<rparr>]
   \<and> audio ''2024-01-15_Pilot.mp3''
       \<in> set [audio ''2024-01-15_Pilot.mp3'', \<lparr>fName = ''2024-01-15_Pilot_SHOWNOTES.md'', fSize = 7\<rparr>]
   \<and> Contains (fName (audio ''2024-01-15_Pilot.mp3'')) ''.mp3''
   \<and> ReadFile no_notes_world
         (''podcasts/'' @ Replace (fName (audio ''2024-01-15_Pilot.mp3'')) ''.mp3'' ''_SHOWNOTES.md'' 2)
       = None
   \<and> fst (GenerateRss stand_in noon no_notes_world) \<noteq> None
   \<and> snd (GenerateRss stand_in noon no_notes_world) = no_notes_world"
  (is "?listing \<and> ?entry \<and> ?mp3 \<and> ?unreadable \<and> ?stops \<and> ?same")
proof -
  have 1: ?listing
    by (simp add: ReadDir_def no_notes_world_def pilot_world_def world_with_def audio_def)
  have 2: ?entry by simp
  have 3: ?mp3 by (simp add: audio_def Contains_def)
  have 4: ?unreadable
    by (simp add: ReadFile_def no_notes_world_def pilot_world_def world_with_def audio_def
          Replace.simps)
  from missing_shownotes_aborts [OF 1 2 3 4, where L = stand_in and now = noon] 1 2 3 4
  show ?thesis by blast
qed

text \<open>
  C8. If the configuration file cannot be read, the rebuild stops with the error of
  \<^verbatim>\<open>ioutil.ReadFile\<close> (the spec's \<open>ConfigUnreadable\<close>); if its bytes do not decode, with the
  error of \<^verbatim>\<open>json.Unmarshal\<close> (the spec's \<open>ConfigMalformed\<close>). Either way nothing is written:
  the file system is what it was, no feed is built from default values.
\<close>

theorem config_failure_aborts:
  "(ReadFile w ''assets/config/config.json'' = None
      \<longrightarrow> GenerateRss L now w = (Some (panic (ReadFile_err ''assets/config/config.json'')), w))
   \<and> (ReadFile w ''assets/config/config.json'' = Some d \<and> Unmarshal L d = None
      \<longrightarrow> GenerateRss L now w = (Some (panic Unmarshal_err), w))"
proof (intro conjI impI)
  assume "ReadFile w ''assets/config/config.json'' = None"
  then show "GenerateRss L now w = (Some (panic (ReadFile_err ''assets/config/config.json'')), w)"
    by (simp add: GenerateRss_def)
next
  assume "ReadFile w ''assets/config/config.json'' = Some d \<and> Unmarshal L d = None"
  then show "GenerateRss L now w = (Some (panic Unmarshal_err), w)"
    by (simp add: GenerateRss_def)
qed

theorem config_failure_aborts_witness:
  "ReadFile no_config_world ''assets/config/config.json'' = None
   \<and> GenerateRss stand_in noon no_config_world
       = (Some (panic (ReadFile_err ''assets/config/config.json'')), no_config_world)
   \<and> ReadFile bad_config_world ''assets/config/config.json'' = Some ''{\"Name\":''
   \<and> Unmarshal stand_in ''{\"Name\":'' = None
   \<and> GenerateRss stand_in noon bad_config_world = (Some (panic Unmarshal_err), bad_config_world)"
  (is "?unreadable \<and> ?first \<and> ?read \<and> ?malformed \<and> ?second")
proof -
  have 1: ?unreadable
    by (simp add: ReadFile_def no_config_world_def)
  have 2: ?read
    by (simp add: ReadFile_def bad_config_world_def)
  have 3: ?malformed
    by (simp add: stand_in_def json_Unmarshal_def config_json_def)
  from 1 config_failure_aborts [where w = no_config_world and L = stand_in and now = noon] have 4: ?first
    by blast
  from 2 3 config_failure_aborts
      [where w = bad_config_world and d = "''{\"Name\":''" and L = stand_in and now = noon] have 5: ?second
    by blast
  from 1 2 3 4 5 show ?thesis by blast
qed

lemma new_feed_fields:
  "Title (new_feed config now) = Name config"
  "fLink (new_feed config now) = PodcastUrl config"
  "fAuthor (new_feed config now) = \<lparr>aName = Host config, aEmail = Email config\<rparr>"
  "Created (new_feed config now) = now"
  "Items (new_feed config now) = []"
  by (simp_all add: new_feed_def)

lemma contents_WriteFile:
  "contents (WriteFile w path data) p =
     (if p = path \<and> path \<notin> readonly w then Some data else contents w p)"
  by (simp add: WriteFile_def)

lemma readonly_WriteFile: "readonly (WriteFile w path data) = readonly w"
  by (simp add: WriteFile_def)

lemma listings_WriteFile: "listings (WriteFile w path data) = listings w"
  by (simp add: WriteFile_def)

text \<open>A rebuild that returns went through every step, and ended with the two writes.\<close>

lemma GenerateRss_returns:
  assumes run: "GenerateRss L now w = (None, w')"
  obtains d config files feed rss json where
    "ReadFile w ''assets/config/config.json'' = Some d" and "Unmarshal L d = Some config"
    and "ReadDir w ''podcasts'' = Some files"
    and "range_files L w config files (new_feed config now) = Inr feed"
    and "ToRss L feed = Some rss" and "ToJSON L feed = Some json"
    and "w' = WriteFile (WriteFile w ''assets/web/feed.rss'' rss) ''assets/web/feed.json'' json"
proof -
  from run obtain d where d: "ReadFile w ''assets/config/config.json'' = Some d"
    by (cases "ReadFile w ''assets/config/config.json''") (simp_all add: GenerateRss_def)
  from run d obtain config where config: "Unmarshal L d = Some config"
    by (cases "Unmarshal L d") (simp_all add: GenerateRss_def)
  from run d config obtain files where files: "ReadDir w ''podcasts'' = Some files"
    by (cases "ReadDir w ''podcasts''") (simp_all add: GenerateRss_def)
  from run d config files
  obtain feed where feed: "range_files L w config files (new_feed config now) = Inr feed"
    by (cases "range_files L w config files (new_feed config now)") (simp_all add: GenerateRss_def)
  from run d config files feed obtain rss where rss: "ToRss L feed = Some rss"
    by (cases "ToRss L feed") (simp_all add: GenerateRss_def)
  from run d config files feed rss obtain json where json: "ToJSON L feed = Some json"
    by (cases "ToJSON L feed") (simp_all add: GenerateRss_def)
  from run d config files feed rss json
  have "w' = WriteFile (WriteFile w ''assets/web/feed.rss'' rss) ''assets/web/feed.json'' json"
    by (simp add: GenerateRss_def)
  with d config files feed rss json show thesis by (rule that)
qed

lemma GenerateRss_steps:
  assumes "ReadFile w ''assets/config/config.json'' = Some d" and "Unmarshal L d = Some config"
    and "ReadDir w ''podcasts'' = Some files"
    and "range_files L w config files (new_feed config now) = Inr feed"
    and "ToRss L feed = Some rss" and "ToJSON L feed = Some json"
  shows "GenerateRss L now w =
    (None, WriteFile (WriteFile w ''assets/web/feed.rss'' rss) ''assets/web/feed.json'' json)"
  using assms by (simp add: GenerateRss_def)

text \<open>
  C10. When a rebuild returns, one feed was built, from the decoded configuration and the
  listing; both encoders were applied to that one feed, and their two results are what was
  handed to the two writes (and what \<open>feed.rss\<close> and \<open>feed.json\<close> hold afterwards, where they
  can be written). The feed's title, link and author are the configuration's name, base URL
  and host with email; its episodes are those of C5.
\<close>

theorem both_documents_encode_one_feed:
  "GenerateRss L now w = (None, w') \<Longrightarrow>
     \<exists>d config files feed rss json.
       ReadFile w ''assets/config/config.json'' = Some d \<and> Unmarshal L d = Some config
       \<and> ReadDir w ''podcasts'' = Some files
       \<and> range_files L w config files (new_feed config now) = Inr feed
       \<and> Title feed = Name config \<and> fLink feed = PodcastUrl config
       \<and> fAuthor feed = \<lparr>aName = Host config, aEmail = Email config\<rparr>
       \<and> ToRss L feed = Some rss \<and> ToJSON L feed = Some json
       \<and> w' = WriteFile (WriteFile w ''assets/web/feed.rss'' rss) ''assets/web/feed.json'' json
       \<and> (''assets/web/feed.rss'' \<notin> readonly w \<longrightarrow> contents w' ''assets/web/feed.rss'' = Some rss)
       \<and> (''assets/web/feed.json'' \<notin> readonly w
            \<longrightarrow> contents w' ''assets/web/feed.json'' = Some json)"
proof -
  assume "GenerateRss L now w = (None, w')"
  then obtain d config files feed rss json where
    d: "ReadFile w ''assets/config/config.json'' = Some d" and config: "Unmarshal L d = Some config"
    and files: "ReadDir w ''podcasts'' = Some files"
    and feed: "range_files L w config files (new_feed config now) = Inr feed"
    and rss: "ToRss L feed = Some rss" and json: "ToJSON L feed = Some json"
    and w': "w' = WriteFile (WriteFile w ''assets/web/feed.rss'' rss) ''assets/web/feed.json'' json"
    by (rule GenerateRss_returns)
  from range_files_fields [OF feed]
  have fields: "Title feed = Name config" "fLink feed = PodcastUrl config"
    "fAuthor feed = \<lparr>aName = Host config, aEmail = Email config\<rparr>"
    by (metis Feed.select_convs Feed.surjective Feed.update_convs new_feed_fields)+
  have written:
    "''assets/web/feed.rss'' \<notin> readonly w \<longrightarrow> contents w' ''assets/web/feed.rss'' = Some rss"
    "''assets/web/feed.json'' \<notin> readonly w \<longrightarrow> contents w' ''assets/web/feed.json'' = Some json"
    unfolding w' by (simp_all add: contents_WriteFile readonly_WriteFile)
  from d config files feed fields rss json w' written show ?thesis by blast
qed

lemma pilot_reads:
  "ReadFile pilot_world ''assets/config/config.json'' = Some config_json"
  "Unmarshal stand_in config_json = Some show_config"
  "ReadDir pilot_world ''podcasts''
     = Some [audio ''2024-01-15_Pilot.mp3'', \<lparr>fName = ''2024-01-15_Pilot_SHOWNOTES.md'', fSize = 7\<rparr>]"
  "ToRss stand_in feed = Some (rss_document feed)"
  "ToJSON stand_in feed = Some (json_document feed)"
  by (simp_all add: ReadFile_def ReadDir_def pilot_world_def world_with_def stand_in_def
        json_Unmarshal_def feed_ToRss_def feed_ToJSON_def audio_def)

lemma pilot_files:
  "range_files stand_in pilot_world show_config
       [audio ''2024-01-15_Pilot.mp3'', \<lparr>fName = ''2024-01-15_Pilot_SHOWNOTES.md'', fSize = 7\<rparr>]
       (new_feed show_config now)
     = Inr (pilot_feed now)"
  by (simp add: pilot_body range_body_skip Contains_def pilot_feed_def)

lemma pilot_run:
  "GenerateRss stand_in now pilot_world =
     (None, WriteFile (WriteFile pilot_world ''assets/web/feed.rss'' (rss_document (pilot_feed now)))
              ''assets/web/feed.json'' (json_document (pilot_feed now)))"
  by (rule GenerateRss_steps) (rule pilot_reads pilot_files)+

theorem both_documents_encode_one_feed_witness:
  "GenerateRss stand_in noon pilot_world =
     (None, WriteFile (WriteFile pilot_world ''assets/web/feed.rss'' (rss_document (pilot_feed noon)))
              ''assets/web/feed.json'' (json_document (pilot_feed noon)))
   \<and> ''assets/web/feed.rss'' \<notin> readonly pilot_world
   \<and> ''assets/web/feed.json'' \<notin> readonly pilot_world
   \<and> contents (WriteFile (WriteFile pilot_world ''assets/web/feed.rss'' (rss_document (pilot_feed noon)))
              ''assets/web/feed.json'' (json_document (pilot_feed noon))) ''assets/web/feed.rss''
       = ToRss stand_in (pilot_feed noon)
   \<and> contents (WriteFile (WriteFile pilot_world ''assets/web/feed.rss'' (rss_document (pilot_feed noon)))
              ''assets/web/feed.json'' (json_document (pilot_feed noon))) ''assets/web/feed.json''
       = ToJSON stand_in (pilot_feed noon)
   \<and> Title (pilot_feed noon) = ''Show''"
  (is "?run \<and> ?rss_path \<and> ?json_path \<and> ?rss \<and> ?json \<and> ?title")
proof -
  have paths: ?rss_path ?json_path
    by (simp_all add: pilot_world_def world_with_def)
  from both_documents_encode_one_feed [OF pilot_run [of noon]] paths
  obtain d config files feed rss json where
    d: "ReadFile pilot_world ''assets/config/config.json'' = Some d"
    and config: "Unmarshal stand_in d = Some config"
    and files: "ReadDir pilot_world ''podcasts'' = Some files"
    and feed: "range_files stand_in pilot_world config files (new_feed config noon) = Inr feed"
    and title: "Title feed = Name config"
    and rss: "ToRss stand_in feed = Some rss" and json: "ToJSON stand_in feed = Some json"
    and in_rss: "contents (WriteFile (WriteFile pilot_world ''assets/web/feed.rss'' (rss_document (pilot_feed noon)))
              ''assets/web/feed.json'' (json_document (pilot_feed noon))) ''assets/web/feed.rss''
       = Some rss"
    and in_json: "contents (WriteFile (WriteFile pilot_world ''assets/web/feed.rss'' (rss_document (pilot_feed noon)))
              ''assets/web/feed.json'' (json_document (pilot_feed noon))) ''assets/web/feed.json''
       = Some json"
    by blast
  from d have "d = config_json" by (simp add: pilot_reads)
  with config have same_config: "config = show_config" by (simp add: pilot_reads)
  from files have "files = [audio ''2024-01-15_Pilot.mp3'',
      \<lparr>fName = ''2024-01-15_Pilot_SHOWNOTES.md'', fSize = 7\<rparr>]"
    by (simp add: pilot_reads)
  with feed same_config have same_feed: "feed = pilot_feed noon"
    by (simp add: pilot_files del: range_files.simps)
  from in_rss rss same_feed have 1: ?rss by simp
  from in_json json same_feed have 2: ?json by simp
  from title same_feed same_config have 3: ?title by (simp add: show_config_def)
  from pilot_run [of noon] paths 1 2 3 show ?thesis by blast
qed

section \<open>The order of the episodes\<close>

text \<open>
  A list sorted by a key that is distinct on it is the sorted list, whatever algorithm
  arranged it: this is why \<^verbatim>\<open>sort.Slice\<close>, which is not stable, is \<open>sort_key\<close> on a directory.
\<close>

lemma filter_same_key:
  "distinct (map f zs) \<Longrightarrow> k \<in> set zs \<Longrightarrow> filter (\<lambda>x. f k = f x) zs = [k]"
proof (induction zs)
  case Nil
  then show ?case by simp
next
  case (Cons z zs)
  show ?case
  proof (cases "k = z")
    case True
    with Cons.prems have "\<forall>x\<in>set zs. f k \<noteq> f x" by auto
    then have "filter (\<lambda>x. f k = f x) zs = []" by (simp add: filter_empty_conv)
    with True show ?thesis by simp
  next
    case False
    with Cons.prems have tail: "k \<in> set zs" by simp
    with Cons.prems have "f k \<noteq> f z" by (auto simp: image_iff)
    with Cons tail show ?thesis by simp
  qed
qed

lemma sorted_by_distinct_key_unique:
  assumes "distinct (map f xs)" and "mset ys = mset xs" and "sorted (map f ys)"
  shows "ys = sort_key f xs"
proof -
  from assms(2) have "mset (map f ys) = mset (map f xs)" by simp
  with assms(1) have dy: "distinct (map f ys)"
    by (metis mset_eq_imp_distinct_iff)
  have "sort_key f xs = ys"
  proof (rule properties_for_sort_key [OF assms(2) _ assms(3)])
    fix k
    assume k: "k \<in> set ys"
    with assms(2) have "k \<in> set xs" by (metis mset_eq_setD)
    with assms(1) k dy show "filter (\<lambda>x. f k = f x) ys = filter (\<lambda>x. f k = f x) xs"
      by (simp add: filter_same_key)
  qed
  then show ?thesis by simp
qed

text \<open>
  C5, as amended. The records of the feed model follow the file names: the listing the
  loop runs over is what \<^verbatim>\<open>ioutil.ReadDir\<close> returns (line 81), the directory's entries
  sorted by file name in byte order, whatever order the platform lists them in. The records
  are those of the entries that pass the test of line 97, one for one and in that order (the
  i-th record is the one the loop body builds for the i-th such entry, and its download link
  names it); the loop itself reorders nothing. This feed is the one the rebuild encodes.
\<close>

theorem episodes_in_file_name_order:
  "ReadFile w ''assets/config/config.json'' = Some d \<Longrightarrow> Unmarshal L d = Some config \<Longrightarrow>
   listings w ''podcasts'' = Some entries \<Longrightarrow>
   range_files L w config (sort_key fName entries) (new_feed config now) = Inr feed \<Longrightarrow>
     GenerateRss L now w =
       (case ToRss L feed of
          None \<Rightarrow> (Some (log_Fatal ToRss_err), w)
        | Some rss \<Rightarrow>
          (case ToJSON L feed of
             None \<Rightarrow> (Some (log_Fatal ToJSON_err), w)
           | Some json \<Rightarrow>
               (None, WriteFile (WriteFile w ''assets/web/feed.rss'' rss)
                        ''assets/web/feed.json'' json)))
     \<and> list_all2
         (\<lambda>item file. range_body L w config file (new_feed config now)
                         = Inr (Add (new_feed config now) item))
         (Items feed) (filter (\<lambda>file. Contains (fName file) ''.mp3'') (sort_key fName entries))
     \<and> map (\<lambda>item. Href (iLink item)) (Items feed)
         = map (\<lambda>file. PodcastUrl config @ ''/download/'' @ fName file)
             (filter (\<lambda>file. Contains (fName file) ''.mp3'') (sort_key fName entries))
     \<and> sorted (map fName (filter (\<lambda>file. Contains (fName file) ''.mp3'') (sort_key fName entries)))
     \<and> mset (filter (\<lambda>file. Contains (fName file) ''.mp3'') (sort_key fName entries))
         = filter_mset (\<lambda>file. Contains (fName file) ''.mp3'') (mset entries)"
proof -
  assume d: "ReadFile w ''assets/config/config.json'' = Some d"
    and config: "Unmarshal L d = Some config"
    and entries: "listings w ''podcasts'' = Some entries"
    and feed: "range_files L w config (sort_key fName entries) (new_feed config now) = Inr feed"
  let ?files = "sort_key fName entries"
  let ?eligible = "\<lambda>file. Contains (fName file) ''.mp3''"
  from entries have "ReadDir w ''podcasts'' = Some ?files"
    by (simp add: ReadDir_def)
  with d config feed have encoded: "GenerateRss L now w =
       (case ToRss L feed of
          None \<Rightarrow> (Some (log_Fatal ToRss_err), w)
        | Some rss \<Rightarrow>
          (case ToJSON L feed of
             None \<Rightarrow> (Some (log_Fatal ToJSON_err), w)
           | Some json \<Rightarrow>
               (None, WriteFile (WriteFile w ''assets/web/feed.rss'' rss)
                        ''assets/web/feed.json'' json)))"
    by (simp add: GenerateRss_def)
  from range_files_Items [OF feed, of "new_feed config now"]
  obtain new where built: "feed = (new_feed config now)\<lparr>Items := Items (new_feed config now) @ new\<rparr>"
    and new: "list_all2
       (\<lambda>item file. range_body L w config file (new_feed config now)
                       = Inr (Add (new_feed config now) item))
       new (filter ?eligible ?files)"
    by (elim exE conjE)
  from built have items: "Items feed = new" by (simp add: new_feed_def)
  have links: "map (\<lambda>item. Href (iLink item)) new
         = map (\<lambda>file. PodcastUrl config @ ''/download/'' @ fName file) (filter ?eligible ?files)"
    using new
  proof (rule list_all2_map_eq)
    fix item entry
    assume "range_body L w config entry (new_feed config now) = Inr (Add (new_feed config now) item)"
    from range_body_Add(3) [OF this]
    show "Href (iLink item) = PodcastUrl config @ ''/download/'' @ fName entry" by auto
  qed
  have "sorted (map fName ?files)" by (rule sorted_sort_key)
  then have by_name: "sorted (map fName (filter ?eligible ?files))" by (rule sorted_filter)
  have same: "mset (filter ?eligible ?files) = filter_mset ?eligible (mset entries)" by simp
  from encoded new items links by_name same show ?thesis by simp
qed

lemma unsorted_reads:
  "ReadFile unsorted_world ''assets/config/config.json'' = Some config_json"
  "listings unsorted_world ''podcasts''
     = Some [audio ''2024-01-15_Sequel.mp3'', notes_file ''2024-01-15_Sequel_SHOWNOTES.md'',
             audio ''2024-01-15_Pilot.mp3'', notes_file ''2024-01-15_Pilot_SHOWNOTES.md'']"
  by (simp_all add: ReadFile_def unsorted_world_def two_world_def)

lemma unsorted_listing_sorted:
  "sort_key fName
       [audio ''2024-01-15_Sequel.mp3'', notes_file ''2024-01-15_Sequel_SHOWNOTES.md'',
        audio ''2024-01-15_Pilot.mp3'', notes_file ''2024-01-15_Pilot_SHOWNOTES.md'']
     = [audio ''2024-01-15_Pilot.mp3'', notes_file ''2024-01-15_Pilot_SHOWNOTES.md'',
        audio ''2024-01-15_Sequel.mp3'', notes_file ''2024-01-15_Sequel_SHOWNOTES.md'']"
  by (simp add: audio_def notes_file_def)

lemma two_files:
  "range_files stand_in unsorted_world show_config
       [audio ''2024-01-15_Pilot.mp3'', notes_file ''2024-01-15_Pilot_SHOWNOTES.md'',
        audio ''2024-01-15_Sequel.mp3'', notes_file ''2024-01-15_Sequel_SHOWNOTES.md'']
       (new_feed show_config now)
     = Inr (two_feed now)"
  by (simp add: run_simps unsorted_world_def two_world_def notes_file_def two_feed_def)

lemma unsorted_run:
  "GenerateRss stand_in now unsorted_world =
     (None, WriteFile (WriteFile unsorted_world ''assets/web/feed.rss'' (rss_document (two_feed now)))
              ''assets/web/feed.json'' (json_document (two_feed now)))"
proof (rule GenerateRss_steps)
  show "ReadDir unsorted_world ''podcasts''
      = Some [audio ''2024-01-15_Pilot.mp3'', notes_file ''2024-01-15_Pilot_SHOWNOTES.md'',
              audio ''2024-01-15_Sequel.mp3'', notes_file ''2024-01-15_Sequel_SHOWNOTES.md'']"
    by (simp only: ReadDir_def unsorted_reads option.map unsorted_listing_sorted)
qed (rule unsorted_reads pilot_reads two_files)+

theorem episodes_in_file_name_order_witness:
  "ReadFile unsorted_world ''assets/config/config.json'' = Some config_json
   \<and> Unmarshal stand_in config_json = Some show_config
   \<and> listings unsorted_world ''podcasts''
       = Some [audio ''2024-01-15_Sequel.mp3'', notes_file ''2024-01-15_Sequel_SHOWNOTES.md'',
               audio ''2024-01-15_Pilot.mp3'', notes_file ''2024-01-15_Pilot_SHOWNOTES.md'']
   \<and> range_files stand_in unsorted_world show_config
         (sort_key fName
            [audio ''2024-01-15_Sequel.mp3'', notes_file ''2024-01-15_Sequel_SHOWNOTES.md'',
             audio ''2024-01-15_Pilot.mp3'', notes_file ''2024-01-15_Pilot_SHOWNOTES.md''])
         (new_feed show_config noon)
       = Inr (two_feed noon)
   \<and> [Href (iLink (episode ''Pilot'' ''2024-01-15_Pilot.mp3'')),
       Href (iLink (episode ''Sequel'' ''2024-01-15_Sequel.mp3''))]
       = [''https://x.com/download/2024-01-15_Pilot.mp3'',
          ''https://x.com/download/2024-01-15_Sequel.mp3'']
   \<and> sorted [''2024-01-15_Pilot.mp3'', ''2024-01-15_Sequel.mp3'']"
  (is "?config \<and> ?decoded \<and> ?listed \<and> ?looped \<and> ?links \<and> ?by_name")
proof -
  have 1: ?config and 2: ?decoded and 3: ?listed
    by (rule unsorted_reads pilot_reads)+
  have 4: ?looped
    by (simp only: unsorted_listing_sorted two_files)
  from episodes_in_file_name_order [OF 1 2 3 4]
  have "map (\<lambda>item. Href (iLink item)) (Items (two_feed noon))
         = map (\<lambda>file. PodcastUrl show_config @ ''/download/'' @ fName file)
             (filter (\<lambda>file. Contains (fName file) ''.mp3'')
               (sort_key fName
                 [audio ''2024-01-15_Sequel.mp3'', notes_file ''2024-01-15_Sequel_SHOWNOTES.md'',
                  audio ''2024-01-15_Pilot.mp3'', notes_file ''2024-01-15_Pilot_SHOWNOTES.md'']))"
    and "sorted (map fName (filter (\<lambda>file. Contains (fName file) ''.mp3'')
               (sort_key fName
                 [audio ''2024-01-15_Sequel.mp3'', notes_file ''2024-01-15_Sequel_SHOWNOTES.md'',
                  audio ''2024-01-15_Pilot.mp3'', notes_file ''2024-01-15_Pilot_SHOWNOTES.md''])))"
    by blast+
  then have 5: ?links and 6: ?by_name
    by (simp_all add: two_feed_def Contains_def audio_def notes_file_def show_config_def)
  from 1 2 3 4 5 6 show ?thesis by blast
qed

text \<open>
  C5 as stated fails. On a platform that lists the later file first, the records are not in
  the order of the directory listing: \<^verbatim>\<open>ioutil.ReadDir\<close> has sorted the entries by name, and
  the feed the rebuild encodes holds the record of the earlier name first.
\<close>

theorem episodes_not_in_platform_order:
  "listings unsorted_world ''podcasts''
     = Some [audio ''2024-01-15_Sequel.mp3'', notes_file ''2024-01-15_Sequel_SHOWNOTES.md'',
             audio ''2024-01-15_Pilot.mp3'', notes_file ''2024-01-15_Pilot_SHOWNOTES.md'']
   \<and> ReadDir unsorted_world ''podcasts''
     = Some [audio ''2024-01-15_Pilot.mp3'', notes_file ''2024-01-15_Pilot_SHOWNOTES.md'',
             audio ''2024-01-15_Sequel.mp3'', notes_file ''2024-01-15_Sequel_SHOWNOTES.md'']
   \<and> range_files stand_in unsorted_world show_config
         [audio ''2024-01-15_Pilot.mp3'', notes_file ''2024-01-15_Pilot_SHOWNOTES.md'',
          audio ''2024-01-15_Sequel.mp3'', notes_file ''2024-01-15_Sequel_SHOWNOTES.md'']
         (new_feed show_config noon)
       = Inr (two_feed noon)
   \<and> GenerateRss stand_in noon unsorted_world =
       (None, WriteFile (WriteFile unsorted_world ''assets/web/feed.rss'' (rss_document (two_feed noon)))
                ''assets/web/feed.json'' (json_document (two_feed noon)))
   \<and> Items (two_feed noon)
       = [episode ''Pilot'' ''2024-01-15_Pilot.mp3'', episode ''Sequel'' ''2024-01-15_Sequel.mp3'']
   \<and> Items (two_feed noon)
       \<noteq> [episode ''Sequel'' ''2024-01-15_Sequel.mp3'', episode ''Pilot'' ''2024-01-15_Pilot.mp3'']"
proof -
  have "ReadDir unsorted_world ''podcasts''
     = Some [audio ''2024-01-15_Pilot.mp3'', notes_file ''2024-01-15_Pilot_SHOWNOTES.md'',
             audio ''2024-01-15_Sequel.mp3'', notes_file ''2024-01-15_Sequel_SHOWNOTES.md'']"
    by (simp only: ReadDir_def unsorted_reads option.map unsorted_listing_sorted)
  moreover have "Items (two_feed noon)
       = [episode ''Pilot'' ''2024-01-15_Pilot.mp3'', episode ''Sequel'' ''2024-01-15_Sequel.mp3'']"
    "Items (two_feed noon)
       \<noteq> [episode ''Sequel'' ''2024-01-15_Sequel.mp3'', episode ''Pilot'' ''2024-01-15_Pilot.mp3'']"
    by (simp_all add: two_feed_def episode_def)
  ultimately show ?thesis
    using unsorted_reads(2) two_files [of noon] unsorted_run [of noon] by blast
qed

section \<open>A rebuild after a rebuild\<close>

lemma range_body_same_reads:
  "(\<And>p. ReadFile w' (''podcasts/'' @ p) = ReadFile w (''podcasts/'' @ p)) \<Longrightarrow>
     range_body L w' config file feed = range_body L w config file feed"
  by (simp only: range_body_def Let_def)

lemma range_files_same_reads:
  "(\<And>p. ReadFile w' (''podcasts/'' @ p) = ReadFile w (''podcasts/'' @ p)) \<Longrightarrow>
     range_files L w' config files feed = range_files L w config files feed"
proof (induction files arbitrary: feed)
  case Nil
  then show ?case by simp
next
  case (Cons f fs)
  have "range_body L w' config f feed = range_body L w config f feed"
    by (rule range_body_same_reads) (rule Cons.prems)
  with Cons.IH [OF Cons.prems] show ?case by (simp split: sum.splits)
qed

lemma reads_after_writes:
  "ReadFile (WriteFile (WriteFile w ''assets/web/feed.rss'' x) ''assets/web/feed.json'' y)
      (''podcasts/'' @ p) = ReadFile w (''podcasts/'' @ p)"
  "ReadFile (WriteFile (WriteFile w ''assets/web/feed.rss'' x) ''assets/web/feed.json'' y)
      ''assets/config/config.json'' = ReadFile w ''assets/config/config.json''"
  "ReadDir (WriteFile (WriteFile w ''assets/web/feed.rss'' x) ''assets/web/feed.json'' y) dir
     = ReadDir w dir"
  by (simp_all add: ReadFile_def ReadDir_def contents_WriteFile listings_WriteFile)

lemma WriteFile_overwrite:
  "WriteFile (WriteFile
      (WriteFile (WriteFile w ''assets/web/feed.rss'' x) ''assets/web/feed.json'' y)
      ''assets/web/feed.rss'' x') ''assets/web/feed.json'' y'
     = WriteFile (WriteFile w ''assets/web/feed.rss'' x') ''assets/web/feed.json'' y'"
  by (auto simp: WriteFile_def fun_upd_twist)

lemma GenerateRss_again:
  assumes first: "GenerateRss L now w = (None, w1)" and other: "GenerateRss L now' w = (None, w2)"
  shows "GenerateRss L now' w1 = (None, w2)"
proof -
  from first obtain x y where
    w1: "w1 = WriteFile (WriteFile w ''assets/web/feed.rss'' x) ''assets/web/feed.json'' y"
    by (rule GenerateRss_returns)
  from other obtain d config files feed rss json where
    d: "ReadFile w ''assets/config/config.json'' = Some d" and config: "Unmarshal L d = Some config"
    and files: "ReadDir w ''podcasts'' = Some files"
    and feed: "range_files L w config files (new_feed config now') = Inr feed"
    and rss: "ToRss L feed = Some rss" and json: "ToJSON L feed = Some json"
    and w2: "w2 = WriteFile (WriteFile w ''assets/web/feed.rss'' rss) ''assets/web/feed.json'' json"
    by (rule GenerateRss_returns)
  have "range_files L w1 config files (new_feed config now')
      = range_files L w config files (new_feed config now')"
    unfolding w1 by (rule range_files_same_reads) (rule reads_after_writes)
  with feed have feed1: "range_files L w1 config files (new_feed config now') = Inr feed"
    by simp
  have "GenerateRss L now' w1 =
      (None, WriteFile (WriteFile w1 ''assets/web/feed.rss'' rss) ''assets/web/feed.json'' json)"
  proof (rule GenerateRss_steps)
    show "ReadFile w1 ''assets/config/config.json'' = Some d"
      unfolding w1 using d by (simp add: reads_after_writes)
    show "ReadDir w1 ''podcasts'' = Some files"
      unfolding w1 using files by (simp add: reads_after_writes)
  qed (rule config feed1 rss json)+
  then show ?thesis
    unfolding w1 w2 by (simp only: WriteFile_overwrite)
qed

text \<open>
  C2, as amended. For a fixed configuration file, a fixed directory and a fixed reading of the
  clock, the rebuild is idempotent: run again on the file system the first run left, at the
  same clock reading, it ends the same way and leaves the same files. The feed's creation
  time is the clock reading (line 92), so this says nothing of two runs at different times.
\<close>

theorem rebuild_idempotent_at_one_clock_reading:
  "GenerateRss L now (snd (GenerateRss L now w)) = GenerateRss L now w"
proof (cases "fst (GenerateRss L now w)")
  case None
  then have run: "GenerateRss L now w = (None, snd (GenerateRss L now w))"
    by (metis prod.collapse)
  from GenerateRss_again [OF run run] run show ?thesis by simp
next
  case (Some a)
  then have run: "GenerateRss L now w = (Some a, snd (GenerateRss L now w))"
    by (metis prod.collapse)
  from GenerateRss_abort_keeps_world [OF run] show ?thesis by simp
qed

theorem rebuild_idempotent_at_one_clock_reading_witness:
  "fst (GenerateRss stand_in noon pilot_world) = None
   \<and> GenerateRss stand_in noon (snd (GenerateRss stand_in noon pilot_world))
       = GenerateRss stand_in noon pilot_world"
  using rebuild_idempotent_at_one_clock_reading [of stand_in noon pilot_world]
  by (simp add: pilot_run)

lemma pilot_documents_differ:
  "rss_document (pilot_feed second_later) \<noteq> rss_document (pilot_feed noon)"
  "json_document (pilot_feed second_later) \<noteq> json_document (pilot_feed noon)"
  by (simp_all add: rss_document_def json_document_def element_def member_def show_Time_def
        pilot_feed_def new_feed_def Add_def noon_def second_later_def decimal.simps digit_def)

text \<open>
  C2 as stated fails. The feed handed to the encoders carries the clock reading as its
  creation time, so with the configuration and the directory unchanged the feed of a second
  rebuild, one second after the first, is another feed; under encoders that print the
  creation time, as the library's RSS writer does in the channel's publication date, the
  second rebuild writes other bytes to both files.
\<close>

theorem second_rebuild_writes_other_bytes:
  "Created (pilot_feed second_later) \<noteq> Created (pilot_feed noon)
   \<and> contents (snd (GenerateRss stand_in second_later (snd (GenerateRss stand_in noon pilot_world))))
       ''assets/web/feed.rss''
     \<noteq> contents (snd (GenerateRss stand_in noon pilot_world)) ''assets/web/feed.rss''
   \<and> contents (snd (GenerateRss stand_in second_later (snd (GenerateRss stand_in noon pilot_world))))
       ''assets/web/feed.json''
     \<noteq> contents (snd (GenerateRss stand_in noon pilot_world)) ''assets/web/feed.json''"
proof -
  have writable: "readonly pilot_world = {}"
    by (simp add: pilot_world_def world_with_def)
  have created: "Created (pilot_feed second_later) \<noteq> Created (pilot_feed noon)"
    by (simp add: pilot_feed_def Add_def new_feed_def noon_def second_later_def)
  have "GenerateRss stand_in second_later (snd (GenerateRss stand_in noon pilot_world))
      = GenerateRss stand_in second_later pilot_world"
    using GenerateRss_again [OF pilot_run [of noon] pilot_run [of second_later]]
    by (simp add: pilot_run)
  with created show ?thesis
    by (simp add: pilot_run contents_WriteFile readonly_WriteFile writable pilot_documents_differ)
qed

section \<open>The watch loop and a rebuild that stops\<close>

text \<open>
  C1, as amended. When a rebuild triggered by a write event stops with an error (of the
  configuration loader, the extractor or an encoder), the error is printed on standard error
  (by \<^verbatim>\<open>log.Fatal\<close> or as the panic's message), the rebuild has written nothing, and the
  process ends, with status 1 after \<^verbatim>\<open>log.Fatal\<close> and 2 after a panic: whatever events
  follow, the watch loop handles none of them.
\<close>

theorem rebuild_error_ends_the_process:
  "msg t = Events event \<Longrightarrow> Op event AND Write = Write \<Longrightarrow>
   GenerateRss L (clock t) (edit t w) = (Some a, w') \<Longrightarrow>
     watch_loop L w out (t # ts) = Exited (exit_status a) (edit t w) (out @ [stderr_line a])"
proof -
  assume event: "msg t = Events event" and is_write: "Op event AND Write = Write"
    and stop: "GenerateRss L (clock t) (edit t w) = (Some a, w')"
  from GenerateRss_abort_keeps_world [OF stop] have "w' = edit t w" .
  with event is_write stop show ?thesis by simp
qed

lemma write_turn_fields:
  "msg (write_turn now) = Events \<lparr>evName = ''podcasts/2024-01-15_Pilot.mp3'', Op = Write\<rparr>"
  "clock (write_turn now) = now"
  "edit (write_turn now) w = w"
  "msg (config_turn now) = Events \<lparr>evName = ''assets/config/config.json'', Op = Write\<rparr>"
  "clock (config_turn now) = now"
  "edit (config_turn now) w = put_config w"
  by (simp_all add: write_turn_def config_turn_def)

lemma no_config_run:
  "GenerateRss stand_in now no_config_world
     = (Some (panic (ReadFile_err ''assets/config/config.json'')), no_config_world)"
  by (simp add: GenerateRss_def ReadFile_def no_config_world_def)

theorem rebuild_error_ends_the_process_witness:
  "msg (write_turn noon) = Events \<lparr>evName = ''podcasts/2024-01-15_Pilot.mp3'', Op = Write\<rparr>
   \<and> Op \<lparr>evName = ''podcasts/2024-01-15_Pilot.mp3'', Op = Write\<rparr> AND Write = Write
   \<and> GenerateRss stand_in (clock (write_turn noon)) (edit (write_turn noon) no_config_world)
       = (Some (panic (ReadFile_err ''assets/config/config.json'')), no_config_world)
   \<and> watch_loop stand_in no_config_world [] [write_turn noon, write_turn second_later]
       = Exited 2 no_config_world [panic_line (ReadFile_err ''assets/config/config.json'')]"
  (is "?event \<and> ?is_write \<and> ?stop \<and> ?exit")
proof -
  have 1: ?event by (simp add: write_turn_fields)
  have 2: ?is_write by simp
  have 3: ?stop by (simp add: write_turn_fields no_config_run)
  from rebuild_error_ends_the_process [OF 1 2 3, of "[]" "[write_turn second_later]"]
  have 4: ?exit by (simp add: write_turn_fields)
  from 1 2 3 4 show ?thesis by blast
qed

lemma put_config_run:
  "fst (GenerateRss stand_in now (put_config no_config_world)) = None"
proof -
  have "GenerateRss stand_in now (put_config no_config_world) =
      (None, WriteFile (WriteFile (put_config no_config_world) ''assets/web/feed.rss''
                (rss_document (pilot_feed now)))
              ''assets/web/feed.json'' (json_document (pilot_feed now)))"
  proof (rule GenerateRss_steps)
    show "ReadFile (put_config no_config_world) ''assets/config/config.json'' = Some config_json"
      by (simp add: ReadFile_def put_config_def)
    show "ReadDir (put_config no_config_world) ''podcasts''
        = Some [audio ''2024-01-15_Pilot.mp3'', \<lparr>fName = ''2024-01-15_Pilot_SHOWNOTES.md'', fSize = 7\<rparr>]"
      by (simp add: ReadDir_def put_config_def no_config_world_def pilot_world_def world_with_def
            audio_def)
    have "range_files stand_in (put_config no_config_world) show_config
        [audio ''2024-01-15_Pilot.mp3'', \<lparr>fName = ''2024-01-15_Pilot_SHOWNOTES.md'', fSize = 7\<rparr>]
        (new_feed show_config now)
      = range_files stand_in pilot_world show_config
        [audio ''2024-01-15_Pilot.mp3'', \<lparr>fName = ''2024-01-15_Pilot_SHOWNOTES.md'', fSize = 7\<rparr>]
        (new_feed show_config now)"
      by (rule range_files_same_reads)
         (simp add: ReadFile_def put_config_def no_config_world_def)
    then show "range_files stand_in (put_config no_config_world) show_config
        [audio ''2024-01-15_Pilot.mp3'', \<lparr>fName = ''2024-01-15_Pilot_SHOWNOTES.md'', fSize = 7\<rparr>]
        (new_feed show_config now) = Inr (pilot_feed now)"
      by (simp only: pilot_files)
  qed (rule pilot_reads)+
  then show ?thesis by simp
qed

text \<open>
  C1 as stated fails. The configuration file is missing when a first write event arrives; it
  is put back, and a second write event arrives. A rebuild on the second event would succeed;
  the process has ended with the first, status 2, and neither output was ever written.
\<close>

theorem watch_loop_ends_with_failed_rebuild:
  "watch_loop stand_in no_config_world [] [write_turn noon, config_turn second_later]
     = Exited 2 no_config_world [panic_line (ReadFile_err ''assets/config/config.json'')]
   \<and> fst (GenerateRss stand_in (clock (config_turn second_later))
            (edit (config_turn second_later) no_config_world)) = None
   \<and> contents no_config_world ''assets/web/feed.rss'' = None
   \<and> contents no_config_world ''assets/web/feed.json'' = None"
proof -
  have "watch_loop stand_in no_config_world [] [write_turn noon, config_turn second_later]
     = Exited 2 no_config_world [panic_line (ReadFile_err ''assets/config/config.json'')]"
    by (simp add: write_turn_fields no_config_run)
  moreover have "fst (GenerateRss stand_in (clock (config_turn second_later))
            (edit (config_turn second_later) no_config_world)) = None"
    by (simp add: write_turn_fields put_config_run)
  moreover have "contents no_config_world ''assets/web/feed.rss'' = None"
    "contents no_config_world ''assets/web/feed.json'' = None"
    by (simp_all add: no_config_world_def pilot_world_def world_with_def)
  ultimately show ?thesis by blast
qed

end
